theory Spec2Isabelle
  imports Main "HOL-Library.Word" "HOL-Library.AList" "HOL-Library.Monad_Syntax" "HOL-Library.Multiset"
begin

section \<open>Data of the Kafka exporter (plugins/kafka/exporter/exporter.go)\<close>

text \<open>
  Go's \<^verbatim>\<open>int32\<close> (partition numbers, broker ids) and \<^verbatim>\<open>int64\<close> (offsets) are words:
  \<open>+\<close> and \<open>-\<close> wrap as they do in Go, \<open>sint\<close> reads the signed value.
  \<^verbatim>\<open>sarama.KError\<close> is an \<^verbatim>\<open>int16\<close> whose zero is \<^verbatim>\<open>ErrNoError\<close>.
\<close>

type_synonym int32 = "32 word"
type_synonym int64 = "64 word"
type_synonym KError = "16 word"

definition ErrNoError :: KError where
  "ErrNoError = 0"

text \<open>Values of Go's \<^verbatim>\<open>error\<close> interface. The source compares an error only with nil and
  with \<^verbatim>\<open>sarama.ErrAlreadyConnected\<close>.\<close>

datatype error = ErrAlreadyConnected | ErrOther string

text \<open>The sixteen package-level metric descriptors.\<close>

datatype Desc =
    clusterBrokers
  | clusterBrokerInfo
  | topicPartitions
  | topicCurrentOffset
  | topicOldestOffset
  | topicPartitionLeader
  | topicPartitionReplicas
  | topicPartitionInSyncReplicas
  | topicPartitionUsesPreferredReplica
  | topicUnderReplicatedPartition
  | consumergroupCurrentOffset
  | consumergroupCurrentOffsetSum
  | consumergroupLag
  | consumergroupLagSum
  | consumergroupLagZookeeper
  | consumergroupMembers

text \<open>
  A label value is a Go string. \<open>FormatInt n\<close> stands for the decimal string
  \<^verbatim>\<open>strconv.FormatInt(n, 10)\<close> (also \<^verbatim>\<open>strconv.Itoa\<close>); the digits are not spelled out,
  the number is kept.

  \<open>MustNewConstMetric d v ls\<close> is the sample
  \<^verbatim>\<open>prometheus.MustNewConstMetric(d, prometheus.GaugeValue, float64(v), ls...)\<close>:
  \<open>v\<close> is the integer that the source hands to \<^verbatim>\<open>float64\<close> (the signed value of an
  \<^verbatim>\<open>int64\<close> or \<^verbatim>\<open>int32\<close>, a \<^verbatim>\<open>len\<close>, or the constant 0 or 1). The rounding of that
  conversion is not part of the model.
\<close>

datatype label = Str string | FormatInt int

datatype Metric = MustNewConstMetric Desc int "label list"

text \<open>
  \<^verbatim>\<open>offset := make(map[string]map[int32]int64)\<close>, local to one run of \<^verbatim>\<open>collect\<close>:
  a two-level Go map, kept as association lists with \<open>map_of\<close> for lookup and
  \<open>AList.update\<close> for assignment, so that \<^verbatim>\<open>range offset\<close> can be run.
\<close>

type_synonym offset_table = "(string \<times> (int32 \<times> int64) list) list"

definition offset_lookup :: "offset_table \<Rightarrow> string \<Rightarrow> int32 \<Rightarrow> int64 option" where
  \<comment> \<open>\<^verbatim>\<open>v, ok := offset[topic][partition]\<close>: a missing topic yields the nil map, in which
      every lookup is not ok.\<close>
  "offset_lookup offset topic partition' =
     (case map_of offset topic of
        None \<Rightarrow> None
      | Some partitions \<Rightarrow> map_of partitions partition')"

definition offset_make :: "offset_table \<Rightarrow> string \<Rightarrow> offset_table" where
  \<comment> \<open>\<^verbatim>\<open>offset[topic] = make(map[int32]int64, len(partitions))\<close>\<close>
  "offset_make offset topic = AList.update topic [] offset"

definition offset_store :: "offset_table \<Rightarrow> string \<Rightarrow> int32 \<Rightarrow> int64 \<Rightarrow> offset_table option" where
  \<comment> \<open>\<^verbatim>\<open>offset[topic][partition] = currentOffset\<close>: assignment to an entry of a nil map
      panics (\<open>None\<close>).\<close>
  "offset_store offset topic partition' v =
     (case map_of offset topic of
        None \<Rightarrow> None
      | Some partitions \<Rightarrow>
          Some (AList.update topic (AList.update partition' v partitions) offset))"

subsection \<open>What a broker answers\<close>

text \<open>
  The sarama types, with the fields the source reads. A Go map that the source ranges
  over is the list of its entries in the order of that iteration. A call whose value
  the source uses only when \<^verbatim>\<open>err == nil\<close> answers with a sum (\<open>Inl\<close> the error).
  \<^verbatim>\<open>GetMemberAssignment\<close> answers with Go's pair of a pointer and an error: sarama
  returns nil and no error for a member whose assignment is empty, and the source
  dereferences the pointer whenever the error is nil.
\<close>

record OffsetFetchResponseBlock =
  Offset :: int64
  Err :: KError

record OffsetFetchResponse =
  Blocks :: "(string \<times> (int32 \<times> OffsetFetchResponseBlock) list) list"

record OffsetFetchRequest =
  ConsumerGroup :: string
  Version :: int
  request_partitions :: "(string \<times> int32 list) list"

record ConsumerGroupMemberAssignment =
  assignment_Topics :: "(string \<times> int32 list) list"

record GroupMemberDescription =
  GetMemberAssignment :: "ConsumerGroupMemberAssignment option \<times> error option"

record GroupDescription =
  GroupId :: string
  Members :: "(string \<times> GroupMemberDescription) list"

record Broker =
  ID :: int32
  Addr :: string
  Open :: "error option"
  ListGroups :: "error + (string \<times> string) list"
  DescribeGroups :: "string list \<Rightarrow> error + GroupDescription list"
  FetchOffset :: "OffsetFetchRequest \<Rightarrow> error + OffsetFetchResponse"

definition AddPartition :: "OffsetFetchRequest \<Rightarrow> string \<Rightarrow> int32 \<Rightarrow> OffsetFetchRequest" where
  \<comment> \<open>sarama: \<^verbatim>\<open>r.partitions[topic] = append(r.partitions[topic], partitionID)\<close>\<close>
  "AddPartition r topic partitionID =
     r\<lparr>request_partitions :=
         AList.update topic
           ((case map_of (request_partitions r) topic of None \<Rightarrow> [] | Some ps \<Rightarrow> ps) @ [partitionID])
           (request_partitions r)\<rparr>"

subsection \<open>The exporter's configuration\<close>

text \<open>The four regular expressions are their \<^verbatim>\<open>MatchString\<close> predicates.\<close>

record Exporter =
  topicFilter :: "string \<Rightarrow> bool"
  topicExclude :: "string \<Rightarrow> bool"
  groupFilter :: "string \<Rightarrow> bool"
  groupExclude :: "string \<Rightarrow> bool"
  useZooKeeperLag :: bool
  offsetShowAll :: bool
  topicWorkers :: int
  allowConcurrent :: bool

section \<open>The consumer-group phase: \<^verbatim>\<open>getConsumerGroupMetrics\<close>\<close>

text \<open>
  The closure run once per broker (lines 547-657). Its result is the sequence of samples
  it sends on \<^verbatim>\<open>ch\<close>. The calls to \<^verbatim>\<open>klog\<close> change neither the control flow nor the
  samples and are left out.
\<close>

fun topicConsumed :: "(int32 \<times> OffsetFetchResponseBlock) list \<Rightarrow> bool" where
  \<comment> \<open>lines 605-612: the loop that breaks at the first block whose offset is not -1\<close>
  "topicConsumed [] = False"
| "topicConsumed ((partition', offsetFetchResponseBlock) # rest) =
     (if Offset offsetFetchResponseBlock \<noteq> - 1 then True else topicConsumed rest)"

fun partitions_loop ::
  "offset_table \<Rightarrow> string \<Rightarrow> string \<Rightarrow> (int32 \<times> OffsetFetchResponseBlock) list \<Rightarrow>
   int64 \<Rightarrow> int64 \<Rightarrow> Metric list \<times> int64 \<times> int64" where
  \<comment> \<open>lines 619-648, with \<^verbatim>\<open>currentOffsetSum\<close> and \<^verbatim>\<open>lagSum\<close> passed along\<close>
  "partitions_loop offset groupId topic [] currentOffsetSum lagSum =
     ([], currentOffsetSum, lagSum)"
| "partitions_loop offset groupId topic ((partition', block) # rest) currentOffsetSum lagSum =
     (if Err block \<noteq> ErrNoError then
        partitions_loop offset groupId topic rest currentOffsetSum lagSum
      else
        let currentOffset = Offset block;
            currentOffsetSum' = currentOffsetSum + currentOffset;
            m1 = MustNewConstMetric consumergroupCurrentOffset (sint currentOffset)
                   [Str groupId, Str topic, FormatInt (sint partition')]
        in
          (case offset_lookup offset topic partition' of
             Some off \<Rightarrow>
               let lag = (if Offset block = - 1 then - 1 else off - Offset block);
                   lagSum' = (if Offset block = - 1 then lagSum else lagSum + lag);
                   m2 = MustNewConstMetric consumergroupLag (sint lag)
                          [Str groupId, Str topic, FormatInt (sint partition')];
                   (ms, sums) = partitions_loop offset groupId topic rest currentOffsetSum' lagSum'
               in (m1 # m2 # ms, sums)
           | None \<Rightarrow>
               let (ms, sums) = partitions_loop offset groupId topic rest currentOffsetSum' lagSum
               in (m1 # ms, sums)))"

definition topic_blocks ::
  "offset_table \<Rightarrow> string \<Rightarrow> string \<times> (int32 \<times> OffsetFetchResponseBlock) list \<Rightarrow> Metric list" where
  \<comment> \<open>one iteration of \<^verbatim>\<open>for topic, partitions := range offsetFetchResponse.Blocks\<close>\<close>
  "topic_blocks offset groupId tp =
     (let topic = fst tp; blocks = snd tp in
      if \<not> topicConsumed blocks then []
      else
        let (ms, currentOffsetSum, lagSum) = partitions_loop offset groupId topic blocks 0 0
        in ms @
           [MustNewConstMetric consumergroupCurrentOffsetSum (sint currentOffsetSum)
              [Str groupId, Str topic],
            MustNewConstMetric consumergroupLagSum (sint lagSum) [Str groupId, Str topic]])"

definition add_all_partitions :: "offset_table \<Rightarrow> OffsetFetchRequest \<Rightarrow> OffsetFetchRequest" where
  \<comment> \<open>lines 575-579, \<^verbatim>\<open>offsetShowAll\<close>: every partition of the offset table\<close>
  "add_all_partitions offset r =
     fold (\<lambda>(topic, partitions) r.
             fold (\<lambda>(partition', _) r. AddPartition r topic partition') partitions r)
          offset r"

text \<open>
  How the building of the offset-fetch request of one group ends (lines 573-593): with
  the request, with the \<^verbatim>\<open>return\<close> of line 585, which leaves the closure, or with the
  panic of line 587, where \<^verbatim>\<open>assignment.Topics\<close> dereferences a nil assignment.
\<close>

datatype built = Built OffsetFetchRequest | Returns | Panics

fun members_loop ::
  "(string \<times> GroupMemberDescription) list \<Rightarrow> OffsetFetchRequest \<Rightarrow> built" where
  \<comment> \<open>lines 581-592\<close>
  "members_loop [] r = Built r"
| "members_loop ((memberId, member) # rest) r =
     (let (assignment, err) = GetMemberAssignment member in
      if err \<noteq> None then Returns
      else
        case assignment of
          None \<Rightarrow> Panics
        | Some a \<Rightarrow>
            members_loop rest
              (fold (\<lambda>(topic, partions) r.
                       fold (\<lambda>partition' r. AddPartition r topic partition') partions r)
                    (assignment_Topics a) r))"

definition build_request :: "Exporter \<Rightarrow> offset_table \<Rightarrow> GroupDescription \<Rightarrow> built" where
  \<comment> \<open>lines 573-593\<close>
  "build_request e offset group' =
     (let offsetFetchRequest =
            \<lparr>ConsumerGroup = GroupId group', Version = 1, request_partitions = []\<rparr>
      in
        if offsetShowAll e then Built (add_all_partitions offset offsetFetchRequest)
        else members_loop (Members group') offsetFetchRequest)"

fun groups_loop ::
  "Exporter \<Rightarrow> offset_table \<Rightarrow> Broker \<Rightarrow> GroupDescription list \<Rightarrow> Metric list" where
  \<comment> \<open>lines 572-656, \<^verbatim>\<open>for _, group := range describeGroups.Groups\<close>: the samples sent
      until the loop ends, the closure returns or it panics\<close>
  "groups_loop e offset broker [] = []"
| "groups_loop e offset broker (group' # rest) =
     (case build_request e offset group' of
        Returns \<Rightarrow> []
      | Panics \<Rightarrow> []
      | Built request \<Rightarrow>
          MustNewConstMetric consumergroupMembers (int (length (Members group')))
            [Str (GroupId group')]
          # (case FetchOffset broker request of
               Inl err \<Rightarrow> groups_loop e offset broker rest
             | Inr offsetFetchResponse \<Rightarrow>
                 concat (map (topic_blocks offset (GroupId group')) (Blocks offsetFetchResponse))
                 @ groups_loop e offset broker rest))"

fun groups_loop_panics :: "Exporter \<Rightarrow> offset_table \<Rightarrow> GroupDescription list \<Rightarrow> bool" where
  \<comment> \<open>whether the loop of lines 572-656 ends in the panic of line 587\<close>
  "groups_loop_panics e offset [] = False"
| "groups_loop_panics e offset (group' # rest) =
     (case build_request e offset group' of
        Returns \<Rightarrow> False
      | Panics \<Rightarrow> True
      | Built request \<Rightarrow> groups_loop_panics e offset rest)"

definition getConsumerGroupMetrics :: "Exporter \<Rightarrow> offset_table \<Rightarrow> Broker \<Rightarrow> Metric list" where
  \<comment> \<open>the samples the closure sends\<close>
  "getConsumerGroupMetrics e offset broker =
     (if Open broker \<noteq> None \<and> Open broker \<noteq> Some ErrAlreadyConnected then []
      else
        case ListGroups broker of
          Inl err \<Rightarrow> []
        | Inr groups \<Rightarrow>
            let groupIds = filter (\<lambda>groupId. groupFilter e groupId \<and> \<not> groupExclude e groupId)
                             (map fst groups)
            in
              case DescribeGroups broker groupIds of
                Inl err \<Rightarrow> []
              | Inr describeGroups \<Rightarrow> groups_loop e offset broker describeGroups)"

definition getConsumerGroupMetrics_panics :: "Exporter \<Rightarrow> offset_table \<Rightarrow> Broker \<Rightarrow> bool" where
  \<comment> \<open>whether the closure panics instead of returning\<close>
  "getConsumerGroupMetrics_panics e offset broker =
     (if Open broker \<noteq> None \<and> Open broker \<noteq> Some ErrAlreadyConnected then False
      else
        case ListGroups broker of
          Inl err \<Rightarrow> False
        | Inr groups \<Rightarrow>
            let groupIds = filter (\<lambda>groupId. groupFilter e groupId \<and> \<not> groupExclude e groupId)
                             (map fst groups)
            in
              case DescribeGroups broker groupIds of
                Inl err \<Rightarrow> False
              | Inr describeGroups \<Rightarrow> groups_loop_panics e offset describeGroups)"

definition block_metrics ::
  "offset_table \<Rightarrow> string \<Rightarrow> string \<Rightarrow> int32 \<times> OffsetFetchResponseBlock \<Rightarrow> Metric list" where
  \<comment> \<open>the samples that one iteration of the loop of lines 619-648 sends\<close>
  "block_metrics offset groupId topic pb =
     (if Err (snd pb) \<noteq> ErrNoError then []
      else MustNewConstMetric consumergroupCurrentOffset (sint (Offset (snd pb)))
             [Str groupId, Str topic, FormatInt (sint (fst pb))]
           # (case offset_lookup offset topic (fst pb) of
                None \<Rightarrow> []
              | Some off \<Rightarrow>
                  [MustNewConstMetric consumergroupLag
                     (sint (if Offset (snd pb) = - 1 then - 1 else off - Offset (snd pb)))
                     [Str groupId, Str topic, FormatInt (sint (fst pb))]]))"

section \<open>The topic phase of \<^verbatim>\<open>collect\<close>\<close>

subsection \<open>What the client answers\<close>

text \<open>
  \<^verbatim>\<open>sarama.Client\<close>, with the methods \<^verbatim>\<open>collect\<close> calls, and the kazoo client of the
  optional ZooKeeper lag. Go returns a value and an error side by side. The source reads
  \<^verbatim>\<open>broker\<close>, \<^verbatim>\<open>currentOffset\<close>, \<^verbatim>\<open>replicas\<close> and \<^verbatim>\<open>inSyncReplicas\<close> after the
  \<^verbatim>\<open>if err != nil\<close> that follows their call, whatever the error was, so these four
  calls answer with the pair; a nil pointer or nil slice is \<open>None\<close>. \<^verbatim>\<open>Topics\<close> and
  \<^verbatim>\<open>Partitions\<close> are read on the \<^verbatim>\<open>err == nil\<close> path only and answer with a sum.
  The error of \<^verbatim>\<open>Consumergroups\<close> is only logged and that of a group's
  \<^verbatim>\<open>FetchOffset\<close> is dropped, so both are their value. The metadata refresh of lines
  376-386 changes nothing but the answers of the client, which are parameters here.
\<close>

record Consumergroup =
  Name :: string
  zkFetchOffset :: "string \<Rightarrow> int32 \<Rightarrow> int64"

record Client =
  Brokers :: "Broker list"
  Topics :: "error + string list"
  Partitions :: "string \<Rightarrow> error + int32 list"
  Leader :: "string \<Rightarrow> int32 \<Rightarrow> Broker option \<times> error option"
  GetOffset :: "string \<Rightarrow> int32 \<Rightarrow> int64 \<Rightarrow> int64 \<times> error option"
  Replicas :: "string \<Rightarrow> int32 \<Rightarrow> int32 list option \<times> error option"
  InSyncReplicas :: "string \<Rightarrow> int32 \<Rightarrow> int32 list option \<times> error option"
  Consumergroups :: "Consumergroup list"

definition OffsetNewest :: int64 where
  "OffsetNewest = - 1"

definition OffsetOldest :: int64 where
  "OffsetOldest = - 2"

text \<open>Go's \<^verbatim>\<open>len\<close> of a slice that may be nil, and indexing, which panics (\<open>None\<close>) out of
  range.\<close>

definition len :: "'a list option \<Rightarrow> nat" where
  "len s = (case s of None \<Rightarrow> 0 | Some xs \<Rightarrow> length xs)"

definition index :: "'a list option \<Rightarrow> nat \<Rightarrow> 'a option" where
  "index s i = (case s of None \<Rightarrow> None | Some xs \<Rightarrow> if i < length xs then Some (xs ! i) else None)"

subsection \<open>\<^verbatim>\<open>getTopicMetrics\<close>\<close>

definition leader_is_preferred :: "Broker option \<Rightarrow> int32 list option \<Rightarrow> bool option" where
  \<comment> \<open>line 466: \<^verbatim>\<open>broker != nil && replicas != nil && len(replicas) > 0 &&
      broker.ID() == replicas[0]\<close>; \<^verbatim>\<open>&&\<close> evaluates its right operand only when the left
      one holds. \<open>None\<close> is a panic (nil dereference, index out of range).\<close>
  "leader_is_preferred broker replicas =
     (if broker \<noteq> None then
        if replicas \<noteq> None then
          if 0 < len replicas then
            do { b \<leftarrow> broker; r \<leftarrow> index replicas 0; Some (ID b = r) }
          else Some False
        else Some False
      else Some False)"

definition under_replicated :: "int32 list option \<Rightarrow> int32 list option \<Rightarrow> bool" where
  \<comment> \<open>line 476\<close>
  "under_replicated replicas inSyncReplicas =
     (replicas \<noteq> None \<and> inSyncReplicas \<noteq> None \<and> len inSyncReplicas < len replicas)"

definition zookeeper_lag ::
  "Exporter \<Rightarrow> Client \<Rightarrow> string \<Rightarrow> int32 \<Rightarrow> int64 \<Rightarrow> Metric list" where
  \<comment> \<open>lines 486-503\<close>
  "zookeeper_lag e client topic partition' currentOffset =
     (if useZooKeeperLag e then
        concat (map (\<lambda>group'.
                  let offset = zkFetchOffset group' topic partition' in
                  if 0 < sint offset then
                    [MustNewConstMetric consumergroupLagZookeeper (sint (currentOffset - offset))
                       [Str (Name group'), Str topic, FormatInt (sint partition')]]
                  else [])
                (Consumergroups client))
      else [])"

definition getTopicMetrics_partition ::
  "Exporter \<Rightarrow> Client \<Rightarrow> string \<Rightarrow> offset_table \<Rightarrow> int32 \<Rightarrow> (offset_table \<times> Metric list) option"
  where
  \<comment> \<open>one iteration of \<^verbatim>\<open>for _, partition := range partitions\<close> (lines 417-504): the new
      offset table and the samples sent, or \<open>None\<close> when the iteration panics\<close>
  "getTopicMetrics_partition e client topic offset partition' =
     (let labels = [Str topic, FormatInt (sint partition')] in
      do {
        let (broker, err) = Leader client topic partition';
        m_leader \<leftarrow>
          (if err \<noteq> None then Some []
           else do { b \<leftarrow> broker;
                     Some [MustNewConstMetric topicPartitionLeader (sint (ID b)) labels] });
        let (currentOffset, err) = GetOffset client topic partition' OffsetNewest;
        (offset', m_current) \<leftarrow>
          (if err \<noteq> None then Some (offset, [])
           else do { offset' \<leftarrow> offset_store offset topic partition' currentOffset;
                     Some (offset',
                       [MustNewConstMetric topicCurrentOffset (sint currentOffset) labels]) });
        let (oldestOffset, err) = GetOffset client topic partition' OffsetOldest;
        let m_oldest =
          (if err \<noteq> None then []
           else [MustNewConstMetric topicOldestOffset (sint oldestOffset) labels]);
        let (replicas, err) = Replicas client topic partition';
        let m_replicas =
          (if err \<noteq> None then []
           else [MustNewConstMetric topicPartitionReplicas (int (len replicas)) labels]);
        let (inSyncReplicas, err) = InSyncReplicas client topic partition';
        let m_isr =
          (if err \<noteq> None then []
           else [MustNewConstMetric topicPartitionInSyncReplicas (int (len inSyncReplicas))
                   labels]);
        preferred \<leftarrow> leader_is_preferred broker replicas;
        let m_preferred =
          [MustNewConstMetric topicPartitionUsesPreferredReplica (if preferred then 1 else 0)
             labels];
        let m_under =
          [MustNewConstMetric topicUnderReplicatedPartition
             (if under_replicated replicas inSyncReplicas then 1 else 0) labels];
        Some (offset',
              m_leader @ m_current @ m_oldest @ m_replicas @ m_isr @ m_preferred @ m_under
              @ zookeeper_lag e client topic partition' currentOffset)
      })"

definition accepted :: "Exporter \<Rightarrow> string \<Rightarrow> bool" where
  \<comment> \<open>line 538; line 401 is its negation\<close>
  "accepted e topic = (topicFilter e topic \<and> \<not> topicExclude e topic)"

definition getTopicMetrics_start ::
  "Exporter \<Rightarrow> Client \<Rightarrow> string \<Rightarrow> (Metric \<times> int32 list) option" where
  \<comment> \<open>lines 401-413, up to the loop: \<open>None\<close> when the closure returns at line 402 or 409,
      otherwise the \<^verbatim>\<open>topic_partitions\<close> sample and the partitions to visit\<close>
  "getTopicMetrics_start e client topic =
     (if \<not> topicFilter e topic \<or> topicExclude e topic then None
      else
        case Partitions client topic of
          Inl err \<Rightarrow> None
        | Inr partitions \<Rightarrow>
            Some (MustNewConstMetric topicPartitions (int (length partitions)) [Str topic],
                  partitions))"

fun getTopicMetrics_loop ::
  "Exporter \<Rightarrow> Client \<Rightarrow> string \<Rightarrow> int32 list \<Rightarrow> offset_table \<Rightarrow>
   (offset_table \<times> Metric list) option" where
  "getTopicMetrics_loop e client topic [] offset = Some (offset, [])"
| "getTopicMetrics_loop e client topic (partition' # rest) offset =
     do {
       (offset', ms) \<leftarrow> getTopicMetrics_partition e client topic offset partition';
       (offset'', ms') \<leftarrow> getTopicMetrics_loop e client topic rest offset';
       Some (offset'', ms @ ms')
     }"

definition getTopicMetrics ::
  "Exporter \<Rightarrow> Client \<Rightarrow> string \<Rightarrow> offset_table \<Rightarrow> (offset_table \<times> Metric list) option" where
  \<comment> \<open>the closure run from start to end by one worker, alone (\<open>None\<close>: it panics)\<close>
  "getTopicMetrics e client topic offset =
     (case getTopicMetrics_start e client topic of
        None \<Rightarrow> Some (offset, [])
      | Some (m, partitions) \<Rightarrow>
          do {
            (offset', ms) \<leftarrow> getTopicMetrics_loop e client topic partitions
                                (offset_make offset topic);
            Some (offset', m # ms)
          })"

subsection \<open>The worker pool (lines 395, 507-545)\<close>

definition minx :: "int \<Rightarrow> int \<Rightarrow> int" where
  "minx x y = (if x < y then x else y)"

definition worker_count :: "Exporter \<Rightarrow> string list \<Rightarrow> int" where
  \<comment> \<open>lines 527-530. \<^verbatim>\<open>N/2\<close> truncates; \<^verbatim>\<open>N\<close> is a length, so it is \<open>div\<close>.\<close>
  "worker_count e topics =
     (let N = int (length topics) in
      if N > 1 then minx (N div 2) (topicWorkers e) else N)"

text \<open>
  A worker is a goroutine running \<^verbatim>\<open>loopTopics\<close>. It is blocked in the receive of line
  510 (\<open>Idle\<close>), has received a topic and is about to call \<^verbatim>\<open>getTopicMetrics\<close>
  (\<open>Received\<close>), is inside the partition loop of that call with some partitions left
  (\<open>Running\<close>), or has left its loop because the channel was closed (\<open>Exited\<close>).
\<close>

datatype worker = Idle | Received string | Running string "int32 list" | Exited

function spawn :: "int \<Rightarrow> int \<Rightarrow> worker list" where
  \<comment> \<open>lines 532-535: \<^verbatim>\<open>for w := 1; w <= N; w++ { go loopTopics() }\<close>\<close>
  "spawn w N = (if w \<le> N then Idle # spawn (w + 1) N else [])"
  by pat_completeness auto
termination
  by (relation "measure (\<lambda>(w, N). nat (N + 1 - w))") auto

declare spawn.simps [simp del]

text \<open>
  The state shared by the dispatcher (the goroutine of \<^verbatim>\<open>collect\<close>, lines 537-545) and
  the workers: the topics the dispatcher has still to look at, whether it has closed
  \<^verbatim>\<open>topicChannel\<close>, the counter of the \<^verbatim>\<open>WaitGroup\<close>, the workers, the offset table, the
  samples sent on \<^verbatim>\<open>ch\<close> so far, and whether a goroutine has panicked.
\<close>

record pool =
  pending :: "string list"
  chan_closed :: bool
  wg_count :: int
  workers :: "worker list"
  table :: offset_table
  sent :: "Metric list"
  panicked :: bool

text \<open>
  One step of one goroutine. \<^verbatim>\<open>topicChannel\<close> is unbuffered: the send of line 540
  happens together with the receive of an idle worker. A step of a worker is the part of
  \<^verbatim>\<open>getTopicMetrics\<close> before the loop, one iteration of the loop, or the deferred
  \<^verbatim>\<open>wg.Done()\<close>; the steps of different workers interleave in any order.
\<close>

inductive pool_step :: "Exporter \<Rightarrow> Client \<Rightarrow> pool \<Rightarrow> pool \<Rightarrow> bool"
  for e :: Exporter and client :: Client where
  skip:
    "\<lbrakk>\<not> panicked s; pending s = topic # rest; \<not> accepted e topic\<rbrakk>
     \<Longrightarrow> pool_step e client s (s\<lparr>pending := rest\<rparr>)"
| send:
    "\<lbrakk>\<not> panicked s; pending s = topic # rest; accepted e topic;
      i < length (workers s); workers s ! i = Idle\<rbrakk>
     \<Longrightarrow> pool_step e client s
           (s\<lparr>pending := rest, wg_count := wg_count s + 1,
              workers := (workers s)[i := Received topic]\<rparr>)"
| close:
    "\<lbrakk>\<not> panicked s; pending s = []; \<not> chan_closed s\<rbrakk>
     \<Longrightarrow> pool_step e client s (s\<lparr>chan_closed := True\<rparr>)"
| exit:
    "\<lbrakk>\<not> panicked s; chan_closed s; i < length (workers s); workers s ! i = Idle\<rbrakk>
     \<Longrightarrow> pool_step e client s (s\<lparr>workers := (workers s)[i := Exited]\<rparr>)"
| return:
    "\<lbrakk>\<not> panicked s; i < length (workers s); workers s ! i = Received topic;
      getTopicMetrics_start e client topic = None\<rbrakk>
     \<Longrightarrow> pool_step e client s
           (s\<lparr>wg_count := wg_count s - 1, workers := (workers s)[i := Idle]\<rparr>)"
| start:
    "\<lbrakk>\<not> panicked s; i < length (workers s); workers s ! i = Received topic;
      getTopicMetrics_start e client topic = Some (m, partitions)\<rbrakk>
     \<Longrightarrow> pool_step e client s
           (s\<lparr>table := offset_make (table s) topic, sent := sent s @ [m],
              workers := (workers s)[i := Running topic partitions]\<rparr>)"
| iteration:
    "\<lbrakk>\<not> panicked s; i < length (workers s);
      workers s ! i = Running topic (partition' # rest);
      getTopicMetrics_partition e client topic (table s) partition' = Some (offset', ms)\<rbrakk>
     \<Longrightarrow> pool_step e client s
           (s\<lparr>table := offset', sent := sent s @ ms,
              workers := (workers s)[i := Running topic rest]\<rparr>)"
| panic:
    "\<lbrakk>\<not> panicked s; i < length (workers s);
      workers s ! i = Running topic (partition' # rest);
      getTopicMetrics_partition e client topic (table s) partition' = None\<rbrakk>
     \<Longrightarrow> pool_step e client s (s\<lparr>panicked := True\<rparr>)"
| finish:
    "\<lbrakk>\<not> panicked s; i < length (workers s); workers s ! i = Running topic []\<rbrakk>
     \<Longrightarrow> pool_step e client s
           (s\<lparr>wg_count := wg_count s - 1, workers := (workers s)[i := Idle]\<rparr>)"

definition broker_metrics :: "Client \<Rightarrow> Metric list" where
  \<comment> \<open>lines 365-372\<close>
  "broker_metrics client =
     MustNewConstMetric clusterBrokers (int (length (Brokers client))) []
     # map (\<lambda>b. MustNewConstMetric clusterBrokerInfo 1 [FormatInt (sint (ID b)), Str (Addr b)])
         (Brokers client)"

definition pool_init :: "Exporter \<Rightarrow> Client \<Rightarrow> string list \<Rightarrow> pool" where
  \<comment> \<open>the state after line 535: the workers are spawned, nothing is dispatched yet\<close>
  "pool_init e client topics =
     \<lparr>pending = topics, chan_closed = False, wg_count = 0,
      workers = spawn 1 (worker_count e topics), table = [],
      sent = broker_metrics client, panicked = False\<rparr>"

definition barrier_passed :: "pool \<Rightarrow> bool" where
  \<comment> \<open>the dispatcher is past \<^verbatim>\<open>close(topicChannel)\<close> and \<^verbatim>\<open>wg.Wait()\<close> (lines 543-545)
      returns: the counter is zero\<close>
  "barrier_passed s = (pending s = [] \<and> chan_closed s \<and> wg_count s = 0 \<and> \<not> panicked s)"

definition reachable :: "Exporter \<Rightarrow> Client \<Rightarrow> string list \<Rightarrow> pool \<Rightarrow> bool" where
  "reachable e client topics s = (pool_step e client)\<^sup>*\<^sup>* (pool_init e client topics) s"

text \<open>
  The order in which the samples of several goroutines arrive on the one channel:
  any interleaving of their sequences.
\<close>

inductive interleaving :: "'a list list \<Rightarrow> 'a list \<Rightarrow> bool" where
  nil: "\<forall>xs \<in> set xss. xs = [] \<Longrightarrow> interleaving xss []"
| take: "\<lbrakk>i < length xss; xss ! i = x # xs; interleaving (xss[i := xs]) ys\<rbrakk>
         \<Longrightarrow> interleaving xss (x # ys)"

text \<open>
  The topic phase ends when the dispatcher is past the barrier of line 545: it leaves the
  offset table and the samples sent so far.
\<close>

inductive topic_phase ::
  "Exporter \<Rightarrow> Client \<Rightarrow> string list \<Rightarrow> offset_table \<Rightarrow> Metric list \<Rightarrow> bool"
  for e :: Exporter and client :: Client and topics :: "string list" where
  barrier:
    "\<lbrakk>reachable e client topics s; barrier_passed s\<rbrakk>
     \<Longrightarrow> topic_phase e client topics (table s) (sent s)"

text \<open>
  \<^verbatim>\<open>collect\<close> (lines 363-669) returns having sent \<open>ms\<close>. Either \<^verbatim>\<open>Topics\<close> fails and
  only the broker samples are sent, or the topic phase ends and then one
  \<^verbatim>\<open>getConsumerGroupMetrics\<close> per broker reads the offset table that the topic phase
  left (lines 659-668; with no broker nothing more is sent). \<^verbatim>\<open>collect\<close> does not return
  when one of these goroutines panics.
\<close>

inductive collect :: "Exporter \<Rightarrow> Client \<Rightarrow> Metric list \<Rightarrow> bool"
  for e :: Exporter and client :: Client where
  no_topics:
    "Topics client = Inl err \<Longrightarrow> collect e client (broker_metrics client)"
| phases:
    "\<lbrakk>Topics client = Inr topics; topic_phase e client topics offset ms;
      \<forall>broker \<in> set (Brokers client). \<not> getConsumerGroupMetrics_panics e offset broker;
      interleaving (map (getConsumerGroupMetrics e offset) (Brokers client)) ms'\<rbrakk>
     \<Longrightarrow> collect e client (ms @ ms')"

section \<open>The labels of the descriptors\<close>





section \<open>Invariants of the worker pool\<close>

text \<open>
  What stays true along every run of the pool; the properties of the topic phase are
  proved from these.
\<close>

definition busy :: "worker \<Rightarrow> bool" where
  \<comment> \<open>a worker that holds a topic, so that a \<^verbatim>\<open>wg.Done()\<close> is still to come\<close>
  "busy w = (case w of Received t \<Rightarrow> True | Running t ps \<Rightarrow> True | _ \<Rightarrow> False)"

definition busy_count :: "worker list \<Rightarrow> int" where
  \<comment> \<open>the number of busy workers\<close>
  "busy_count ws = (\<Sum>w\<leftarrow>ws. if busy w then 1 else 0)"

definition partition_samples :: "Exporter \<Rightarrow> Client \<Rightarrow> string \<Rightarrow> int32 \<Rightarrow> Metric list" where
  \<comment> \<open>the samples one iteration of the partition loop sends; they do not depend on the offset table, so the run on a table holding the topic gives them\<close>
  "partition_samples e client topic p =
     (case getTopicMetrics_partition e client topic [(topic, [])] p of
        None \<Rightarrow> []
      | Some (offset', ms) \<Rightarrow> ms)"

definition topic_samples :: "Exporter \<Rightarrow> Client \<Rightarrow> string \<Rightarrow> Metric list" where
  \<comment> \<open>the samples of a whole call of \<^verbatim>\<open>getTopicMetrics\<close>\<close>
  "topic_samples e client topic =
     (case getTopicMetrics_start e client topic of
        None \<Rightarrow> []
      | Some (m, ps) \<Rightarrow> m # concat (map (partition_samples e client topic) ps))"

definition owed :: "Exporter \<Rightarrow> Client \<Rightarrow> worker \<Rightarrow> Metric multiset" where
  \<comment> \<open>the samples a worker has still to send for the topic it holds\<close>
  "owed e client w =
     (case w of
        Received topic \<Rightarrow> mset (topic_samples e client topic)
      | Running topic ps \<Rightarrow> mset (concat (map (partition_samples e client topic) ps))
      | _ \<Rightarrow> {#})"

definition outstanding :: "Exporter \<Rightarrow> Client \<Rightarrow> pool \<Rightarrow> Metric multiset" where
  \<comment> \<open>the samples sent, together with those still to be sent by the workers and for the topics not yet dispatched\<close>
  "outstanding e client s =
     mset (sent s) + (\<Sum>w\<leftarrow>workers s. owed e client w)
     + (\<Sum>topic\<leftarrow>pending s. mset (topic_samples e client topic))"

definition has_map :: "pool \<Rightarrow> bool" where
  \<comment> \<open>a worker inside the partition loop has made the inner map of its topic\<close>
  "has_map s =
     (\<forall>i < length (workers s). \<forall>topic ps.
        workers s ! i = Running topic ps \<longrightarrow> topic \<in> fst ` set (table s))"

definition fetched :: "Exporter \<Rightarrow> Client \<Rightarrow> string list \<Rightarrow> string \<Rightarrow> int32 \<Rightarrow> int64 \<Rightarrow> bool" where
  \<comment> \<open>the newest offset of a partition of a dispatched topic was fetched without error\<close>
  "fetched e client topics topic p v =
     (topic \<in> set topics \<and> accepted e topic
      \<and> (\<exists>ps. Partitions client topic = Inr ps \<and> p \<in> set ps)
      \<and> GetOffset client topic p OffsetNewest = (v, None))"

definition waits :: "string \<Rightarrow> int32 \<Rightarrow> worker \<Rightarrow> bool" where
  \<comment> \<open>the worker has still to visit the partition \<open>p\<close> of the topic\<close>
  "waits topic p w =
     (case w of
        Received t \<Rightarrow> t = topic
      | Running t ps \<Rightarrow> t = topic \<and> p \<in> set ps
      | _ \<Rightarrow> False)"

definition table_inv :: "Exporter \<Rightarrow> Client \<Rightarrow> string list \<Rightarrow> pool \<Rightarrow> bool" where
  \<comment> \<open>a fetched offset is in the table, or its partition is still to be visited\<close>
  "table_inv e client topics s =
     (\<forall>topic p v. fetched e client topics topic p v \<longrightarrow>
        offset_lookup (table s) topic p = Some v
        \<or> topic \<in> set (pending s)
        \<or> (\<exists>w \<in> set (workers s). waits topic p w))"

definition shape :: "Exporter \<Rightarrow> string list \<Rightarrow> pool \<Rightarrow> bool" where
  \<comment> \<open>the dispatcher walks down the topic list, closes the channel at its end, workers exit only then, and their number never changes\<close>
  "shape e topics s =
     (set (pending s) \<subseteq> set topics
      \<and> (chan_closed s \<longrightarrow> pending s = [])
      \<and> (Exited \<in> set (workers s) \<longrightarrow> chan_closed s)
      \<and> length (workers s) = nat (worker_count e topics))"

definition topic_work :: "Exporter \<Rightarrow> Client \<Rightarrow> string \<Rightarrow> nat" where
  \<comment> \<open>the number of iterations a call of \<^verbatim>\<open>getTopicMetrics\<close> makes\<close>
  "topic_work e client topic =
     (case getTopicMetrics_start e client topic of None \<Rightarrow> 0 | Some (m, ps) \<Rightarrow> length ps)"

definition worker_work :: "Exporter \<Rightarrow> Client \<Rightarrow> worker \<Rightarrow> nat" where
  \<comment> \<open>the steps a worker has at most still to take, its exit included\<close>
  "worker_work e client w =
     (case w of
        Idle \<Rightarrow> 1
      | Received topic \<Rightarrow> 3 + topic_work e client topic
      | Running topic ps \<Rightarrow> 2 + length ps
      | Exited \<Rightarrow> 0)"

definition work_left :: "Exporter \<Rightarrow> Client \<Rightarrow> pool \<Rightarrow> nat" where
  \<comment> \<open>a bound on the steps the pool can still take\<close>
  "work_left e client s =
     (if panicked s then 0 else 1) + (if chan_closed s then 0 else 1)
     + (\<Sum>topic\<leftarrow>pending s. 3 + topic_work e client topic)
     + (\<Sum>w\<leftarrow>workers s. worker_work e client w)"

section \<open>\<^verbatim>\<open>Collect\<close> and \<^verbatim>\<open>collectChans\<close>: coalescing concurrent scrapes\<close>

text \<open>
  Channels are numbered. A goroutine running \<^verbatim>\<open>collectChans\<close> (lines 338-361) has its
  \<^verbatim>\<open>quit\<close> channel, the samples its call of \<^verbatim>\<open>collect\<close> has still to send on
  \<^verbatim>\<open>original\<close>, the sample that the goroutine of lines 341-345 has received into
  \<^verbatim>\<open>metric\<close> and not yet appended, the \<^verbatim>\<open>container\<close>, and the place it has reached:
  \<^verbatim>\<open>collect\<close> is running, or it holds \<^verbatim>\<open>sgMutex\<close> and has some channels of
  \<^verbatim>\<open>e.sgChans\<close> left to serve (lines 350-354), or it is past line 360.
\<close>

datatype stage = Collecting | Handing "nat list" | Finished

record collectChans =
  quit :: nat
  todo :: "Metric list"
  metric :: "Metric option"
  container :: "Metric list"
  stage :: stage

text \<open>
  The fields of the exporter that \<^verbatim>\<open>Collect\<close> (lines 315-336) shares between its
  callers, the \<^verbatim>\<open>collectChans\<close> goroutines started so far (the goroutine with
  \<^verbatim>\<open>quit\<close> channel \<open>k\<close> is the \<open>k\<close>-th), the \<^verbatim>\<open>quit\<close> channels closed, the samples each
  caller's channel has received, the calls of \<^verbatim>\<open>Collect\<close> blocked in \<^verbatim>\<open><-waiter\<close> with the
  channel they wait on (\<open>None\<close>: nil), and the channels of the calls that returned.
\<close>

record coalescer =
  sgChans :: "nat list"
  sgWaitCh :: "nat option"
  sgMutex :: bool
  goroutines :: "collectChans list"
  closed :: "nat set"
  got :: "nat \<Rightarrow> Metric list"
  calls :: "(nat \<times> nat option) list"
  returned :: "nat list"

definition coalescer_init :: coalescer where
  \<comment> \<open>\<^verbatim>\<open>NewExporter\<close>, lines 275-277\<close>
  "coalescer_init =
     \<lparr>sgChans = [], sgWaitCh = None, sgMutex = False, goroutines = [], closed = {},
      got = (\<lambda>ch. []), calls = [], returned = []\<rparr>"

text \<open>
  One step of one goroutine. What a caller does between \<^verbatim>\<open>Lock\<close> and \<^verbatim>\<open>Unlock\<close> (lines
  321-332) is one step, taken when the mutex is free. \<^verbatim>\<open>collectChans\<close> takes the mutex
  at line 349 and frees it at line 360; in between it serves one channel per step. The
  receive of line 342 completes the send of \<^verbatim>\<open>collect\<close> on the unbuffered \<^verbatim>\<open>original\<close>
  (\<open>send\<close>); the \<^verbatim>\<open>append\<close> of line 343 is a later step of the receiving goroutine, which
  takes no lock (\<open>append\<close>). Line 351 reads \<^verbatim>\<open>container\<close> anew for each channel.
\<close>

inductive Collect_step :: "Exporter \<Rightarrow> Client \<Rightarrow> coalescer \<Rightarrow> coalescer \<Rightarrow> bool"
  for e :: Exporter and client :: Client where
  concurrent:
    "\<lbrakk>allowConcurrent e; collect e client out\<rbrakk>
     \<Longrightarrow> Collect_step e client s (s\<lparr>got := (got s)(ch := got s ch @ out)\<rparr>)"
| first:
    "\<lbrakk>\<not> allowConcurrent e; \<not> sgMutex s; length (sgChans s @ [ch]) = 1;
      collect e client out\<rbrakk>
     \<Longrightarrow> Collect_step e client s
           (s\<lparr>sgChans := sgChans s @ [ch],
              sgWaitCh := Some (length (goroutines s)),
              goroutines := goroutines s @
                [\<lparr>quit = length (goroutines s), todo = out, metric = None, container = [],
                  stage = Collecting\<rparr>],
              calls := calls s @ [(ch, Some (length (goroutines s)))]\<rparr>)"
| wait:
    "\<lbrakk>\<not> allowConcurrent e; \<not> sgMutex s; length (sgChans s @ [ch]) \<noteq> 1\<rbrakk>
     \<Longrightarrow> Collect_step e client s
           (s\<lparr>sgChans := sgChans s @ [ch], calls := calls s @ [(ch, sgWaitCh s)]\<rparr>)"
| send:
    "\<lbrakk>k < length (goroutines s); goroutines s ! k = r; stage r = Collecting;
      todo r = m # rest; metric r = None\<rbrakk>
     \<Longrightarrow> Collect_step e client s
           (s\<lparr>goroutines := (goroutines s)[k := r\<lparr>todo := rest, metric := Some m\<rparr>]\<rparr>)"
| append:
    "\<lbrakk>k < length (goroutines s); goroutines s ! k = r; metric r = Some m\<rbrakk>
     \<Longrightarrow> Collect_step e client s
           (s\<lparr>goroutines :=
                (goroutines s)[k := r\<lparr>container := container r @ [m], metric := None\<rparr>]\<rparr>)"
| lock:
    "\<lbrakk>k < length (goroutines s); goroutines s ! k = r; stage r = Collecting; todo r = [];
      \<not> sgMutex s\<rbrakk>
     \<Longrightarrow> Collect_step e client s
           (s\<lparr>sgMutex := True,
              goroutines := (goroutines s)[k := r\<lparr>stage := Handing (sgChans s)\<rparr>]\<rparr>)"
| serve:
    "\<lbrakk>k < length (goroutines s); goroutines s ! k = r; stage r = Handing (ch # rest)\<rbrakk>
     \<Longrightarrow> Collect_step e client s
           (s\<lparr>got := (got s)(ch := got s ch @ container r),
              goroutines := (goroutines s)[k := r\<lparr>stage := Handing rest\<rparr>]\<rparr>)"
| unlock:
    "\<lbrakk>k < length (goroutines s); goroutines s ! k = r; stage r = Handing []\<rbrakk>
     \<Longrightarrow> Collect_step e client s
           (s\<lparr>sgChans := [], closed := insert (quit r) (closed s), sgMutex := False,
              goroutines := (goroutines s)[k := r\<lparr>stage := Finished\<rparr>]\<rparr>)"
| return:
    "\<lbrakk>(ch, Some w) \<in> set (calls s); w \<in> closed s\<rbrakk>
     \<Longrightarrow> Collect_step e client s
           (s\<lparr>calls := remove1 (ch, Some w) (calls s), returned := returned s @ [ch]\<rparr>)"

definition numbered :: "coalescer \<Rightarrow> bool" where
  \<comment> \<open>the \<open>k\<close>-th goroutine has the \<^verbatim>\<open>quit\<close> channel \<open>k\<close>, and only channels of goroutines started have been closed\<close>
  "numbered s =
     ((\<forall>k < length (goroutines s). quit (goroutines s ! k) = k)
      \<and> (\<forall>w \<in> closed s. w < length (goroutines s)))"

section \<open>Concrete clusters\<close>

text \<open>
  The end-to-end scenario of the specification: one broker, the topic \<open>t\<close> with two
  partitions whose newest offsets are 10 and 20, and the group \<open>g\<close> with the committed
  offsets 7 (partition 0) and -1 (partition 1).
\<close>

definition scenario_offset :: offset_table where
  "scenario_offset = [(''t'', [(0, 10), (1, 20)])]"

definition scenario_exporter :: Exporter where
  "scenario_exporter =
     \<lparr>topicFilter = (\<lambda>_. True), topicExclude = (\<lambda>_. False),
      groupFilter = (\<lambda>_. True), groupExclude = (\<lambda>_. False),
      useZooKeeperLag = False, offsetShowAll = True, topicWorkers = 3,
      allowConcurrent = False\<rparr>"

definition scenario_blocks :: "(int32 \<times> OffsetFetchResponseBlock) list" where
  "scenario_blocks = [(0, \<lparr>Offset = 7, Err = ErrNoError\<rparr>), (1, \<lparr>Offset = - 1, Err = ErrNoError\<rparr>)]"

definition scenario_broker :: Broker where
  "scenario_broker =
     \<lparr>ID = 1, Addr = ''broker-1:9092'', Open = None,
      ListGroups = Inr [(''g'', ''consumer'')],
      DescribeGroups = (\<lambda>groupIds. Inr (map (\<lambda>groupId. \<lparr>GroupId = groupId, Members = []\<rparr>) groupIds)),
      FetchOffset = (\<lambda>request. Inr \<lparr>Blocks = [(''t'', scenario_blocks)]\<rparr>)\<rparr>"

definition scenario_client :: Client where
  "scenario_client =
     \<lparr>Brokers = [scenario_broker],
      Topics = Inr [''t''],
      Partitions = (\<lambda>topic. if topic = ''t'' then Inr [0, 1] else Inl (ErrOther ''unknown topic'')),
      Leader = (\<lambda>topic p. (Some scenario_broker, None)),
      GetOffset = (\<lambda>topic p time.
                     if time = OffsetNewest then (if p = 0 then 10 else 20, None)
                     else (if p = 0 then 5 else 0, None)),
      Replicas = (\<lambda>topic p. (Some [1, 2, 3], None)),
      InSyncReplicas = (\<lambda>topic p. (Some [1, 2], None)),
      Consumergroups = []\<rparr>"

definition scenario_topic_samples :: "Metric list" where
  "scenario_topic_samples =
     [MustNewConstMetric topicPartitions 2 [Str ''t''],
      MustNewConstMetric topicPartitionLeader 1 [Str ''t'', FormatInt 0],
      MustNewConstMetric topicCurrentOffset 10 [Str ''t'', FormatInt 0],
      MustNewConstMetric topicOldestOffset 5 [Str ''t'', FormatInt 0],
      MustNewConstMetric topicPartitionReplicas 3 [Str ''t'', FormatInt 0],
      MustNewConstMetric topicPartitionInSyncReplicas 2 [Str ''t'', FormatInt 0],
      MustNewConstMetric topicPartitionUsesPreferredReplica 1 [Str ''t'', FormatInt 0],
      MustNewConstMetric topicUnderReplicatedPartition 1 [Str ''t'', FormatInt 0],
      MustNewConstMetric topicPartitionLeader 1 [Str ''t'', FormatInt 1],
      MustNewConstMetric topicCurrentOffset 20 [Str ''t'', FormatInt 1],
      MustNewConstMetric topicOldestOffset 0 [Str ''t'', FormatInt 1],
      MustNewConstMetric topicPartitionReplicas 3 [Str ''t'', FormatInt 1],
      MustNewConstMetric topicPartitionInSyncReplicas 2 [Str ''t'', FormatInt 1],
      MustNewConstMetric topicPartitionUsesPreferredReplica 1 [Str ''t'', FormatInt 1],
      MustNewConstMetric topicUnderReplicatedPartition 1 [Str ''t'', FormatInt 1]]"

definition scenario_final :: pool where
  "scenario_final =
     \<lparr>pending = [], chan_closed = True, wg_count = 0, workers = [Idle],
      table = scenario_offset,
      sent = broker_metrics scenario_client @ scenario_topic_samples,
      panicked = False\<rparr>"

text \<open>
  The same cluster when sarama reports \<^verbatim>\<open>ErrReplicaNotAvailable\<close>: its \<^verbatim>\<open>Replicas\<close>
  then returns the replica list together with the error.
\<close>

definition replica_unavailable_client :: Client where
  "replica_unavailable_client =
     scenario_client
       \<lparr>Replicas :=
          (\<lambda>topic p. (Some [1, 2, 3],
                        Some (ErrOther ''kafka server: Replica information not available'')))\<rparr>"

text \<open>
  The same cluster when \<^verbatim>\<open>Topics\<close> fails: \<^verbatim>\<open>collect\<close> sends the two broker samples and
  returns. Two calls of \<^verbatim>\<open>Collect\<close>, with the channels 1 and 2, are coalesced into one
  run; \<open>race_final\<close> is the state in which both have returned.
\<close>

definition no_topics_client :: Client where
  "no_topics_client = scenario_client\<lparr>Topics := Inl (ErrOther ''kafka: client has run out of available brokers'')\<rparr>"

definition race_final :: coalescer where
  "race_final =
     \<lparr>sgChans = [], sgWaitCh = Some 0, sgMutex = False,
      goroutines =
        [\<lparr>quit = 0, todo = [], metric = None,
          container =
            [MustNewConstMetric clusterBrokers 1 [],
             MustNewConstMetric clusterBrokerInfo 1 [FormatInt 1, Str ''broker-1:9092'']],
          stage = Finished\<rparr>],
      closed = {0},
      got = (\<lambda>ch. [])
        (1 := [MustNewConstMetric clusterBrokers 1 []],
         2 := [MustNewConstMetric clusterBrokers 1 [],
               MustNewConstMetric clusterBrokerInfo 1 [FormatInt 1, Str ''broker-1:9092'']]),
      calls = [], returned = [1, 2]\<rparr>"

text \<open>Groups whose members carry an assignment that does or does not decode.\<close>

definition members_only_exporter :: Exporter where
  "members_only_exporter = scenario_exporter\<lparr>offsetShowAll := False\<rparr>"

definition malformed_member :: GroupMemberDescription where
  "malformed_member =
     \<lparr>GetMemberAssignment =
        (Some \<lparr>assignment_Topics = []\<rparr>, Some (ErrOther ''insufficient data to decode packet''))\<rparr>"

definition healthy_member :: GroupMemberDescription where
  "healthy_member =
     \<lparr>GetMemberAssignment = (Some \<lparr>assignment_Topics = [(''t'', [0])]\<rparr>, None)\<rparr>"

definition unassigned_member :: GroupMemberDescription where
  \<comment> \<open>a member with an empty assignment: sarama answers nil, nil\<close>
  "unassigned_member = \<lparr>GetMemberAssignment = (None, None)\<rparr>"

definition broker_of_groups :: "GroupDescription list \<Rightarrow> Broker" where
  "broker_of_groups groups =
     \<lparr>ID = 1, Addr = ''broker-1:9092'', Open = None,
      ListGroups = Inr (map (\<lambda>g. (GroupId g, ''consumer'')) groups),
      DescribeGroups = (\<lambda>groupIds. Inr groups),
      FetchOffset = (\<lambda>request. Inr \<lparr>Blocks = [(''t'', [(0, \<lparr>Offset = 7, Err = ErrNoError\<rparr>)])]\<rparr>)\<rparr>"




text \<open>A group with a member whose assignment is empty.\<close>

definition unassigned_broker :: Broker where
  "unassigned_broker =
     broker_of_groups [\<lparr>GroupId = ''g1'', Members = [(''m1'', unassigned_member)]\<rparr>]"

section \<open>Properties of the consumer-group phase\<close>

lemma partitions_loop_sums:
  "snd (partitions_loop offset g t bs cs ls) =
     (cs + sum_list (map (\<lambda>(p, b). Offset b) (filter (\<lambda>(p, b). Err b = ErrNoError) bs)),
      ls + sum_list (map (\<lambda>(p, b). the (offset_lookup offset t p) - Offset b)
             (filter (\<lambda>(p, b). Err b = ErrNoError \<and> Offset b \<noteq> - 1 \<and> offset_lookup offset t p \<noteq> None) bs)))"
proof (induction bs arbitrary: cs ls)
  case Nil
  show ?case by simp
next
  case (Cons a bs)
  show ?case
    by (cases a) (auto simp: Cons.IH Let_def split_beta split: option.splits)
qed

lemma partitions_loop_metrics:
  "fst (partitions_loop offset g t bs cs ls) = concat (map (block_metrics offset g t) bs)"
  by (induction offset g t bs cs ls rule: partitions_loop.induct)
     (simp_all add: block_metrics_def Let_def split_beta split: option.splits)

lemma sint_inj: "sint (p::'a::len word) = sint q \<longleftrightarrow> p = q"
  using word_eq_iff_signed[where ?'a=int, of p q] by auto

lemma lag_in_block_metrics:
  "MustNewConstMetric consumergroupLag v [Str g, Str t, FormatInt (sint p)] \<in> set (block_metrics offset g t (q, b)) \<longleftrightarrow>
     q = p \<and> Err b = ErrNoError \<and> (\<exists>off. offset_lookup offset t p = Some off \<and> v = sint (if Offset b = - 1 then - 1 else off - Offset b))"
  by (cases "offset_lookup offset t q") (auto simp: block_metrics_def sint_inj)

lemma topic_blocks_consumed:
  "topicConsumed blocks \<Longrightarrow>
     topic_blocks offset g (t, blocks) =
       concat (map (block_metrics offset g t) blocks) @
       [MustNewConstMetric consumergroupCurrentOffsetSum
          (sint (fst (snd (partitions_loop offset g t blocks 0 0)))) [Str g, Str t],
        MustNewConstMetric consumergroupLagSum
          (sint (snd (snd (partitions_loop offset g t blocks 0 0)))) [Str g, Str t]]"
  by (simp add: topic_blocks_def split_beta partitions_loop_metrics)

lemma sint_sub_nonneg:
  fixes a b :: int64
  assumes "0 \<le> sint a" "0 \<le> sint b"
  shows "sint (a - b) = sint a - sint b"
proof -
  have "sint a < 2 ^ 63" "sint b < 2 ^ 63"
    using sint_lt[of a] sint_lt[of b] by simp_all
  with assms have "- (2 ^ 63) \<le> sint a - sint b" "sint a - sint b < 2 ^ 63"
    by simp_all
  then show ?thesis
    by (simp add: sint_word_ariths signed_take_bit_int_eq_self)
qed

text \<open>
  Claim C2. In the partition loop of a consumed topic, a block without error whose
  (topic, partition) key is in the offset table yields exactly one value of
  \<^verbatim>\<open>consumergroup_lag\<close> for that group, topic and partition: -1 when the committed offset
  is -1 (nothing is subtracted), otherwise the table's offset minus the committed offset.
  The subtraction is Go's \<^verbatim>\<open>int64\<close> subtraction; for offsets that are not negative it is
  the difference of the integers. The keys of the Go map \<^verbatim>\<open>partitions\<close> are distinct.
\<close>

theorem consumergroup_lag_value:
  assumes "topicConsumed blocks"
    and "distinct (map fst blocks)"
    and "(p, b) \<in> set blocks"
    and "Err b = ErrNoError"
    and "offset_lookup offset topic p = Some off"
  shows "(\<forall>v. MustNewConstMetric consumergroupLag v [Str g, Str topic, FormatInt (sint p)]
               \<in> set (topic_blocks offset g (topic, blocks))
             \<longleftrightarrow> v = (if Offset b = - 1 then - 1 else sint (off - Offset b)))
       \<and> (0 \<le> sint off \<and> 0 \<le> sint (Offset b) \<longrightarrow> sint (off - Offset b) = sint off - sint (Offset b))"
proof -
  have uniq: "b' = b" if "(p, b') \<in> set blocks" for b'
    using assms(2) that assms(3) by (rule eq_key_imp_eq_value)
  have "MustNewConstMetric consumergroupLag v [Str g, Str topic, FormatInt (sint p)]
               \<in> set (topic_blocks offset g (topic, blocks))
             \<longleftrightarrow> v = (if Offset b = - 1 then - 1 else sint (off - Offset b))" for v
  proof -
    have "MustNewConstMetric consumergroupLag v [Str g, Str topic, FormatInt (sint p)]
               \<in> set (topic_blocks offset g (topic, blocks))
        \<longleftrightarrow> (\<exists>(q, b') \<in> set blocks. MustNewConstMetric consumergroupLag v [Str g, Str topic, FormatInt (sint p)] \<in> set (block_metrics offset g topic (q, b')))"
      by (simp add: topic_blocks_consumed[OF assms(1)] split_beta)
    also have "\<dots> \<longleftrightarrow> (\<exists>b'. (p, b') \<in> set blocks \<and> Err b' = ErrNoError \<and> v = sint (if Offset b' = - 1 then - 1 else off - Offset b'))"
      by (simp add: lag_in_block_metrics assms(5) split_beta) (metis prod.collapse fst_conv snd_conv)
    also have "\<dots> \<longleftrightarrow> v = sint (if Offset b = - 1 then - 1 else off - Offset b)"
      using assms(3,4) uniq by blast
    finally show ?thesis by simp
  qed
  then show ?thesis
    by (simp add: sint_sub_nonneg)
qed


lemma scenario_run:
  "getConsumerGroupMetrics scenario_exporter scenario_offset scenario_broker =
     [MustNewConstMetric consumergroupMembers 0 [Str ''g''],
      MustNewConstMetric consumergroupCurrentOffset 7 [Str ''g'', Str ''t'', FormatInt 0],
      MustNewConstMetric consumergroupLag 3 [Str ''g'', Str ''t'', FormatInt 0],
      MustNewConstMetric consumergroupCurrentOffset (- 1) [Str ''g'', Str ''t'', FormatInt 1],
      MustNewConstMetric consumergroupLag (- 1) [Str ''g'', Str ''t'', FormatInt 1],
      MustNewConstMetric consumergroupCurrentOffsetSum 6 [Str ''g'', Str ''t''],
      MustNewConstMetric consumergroupLagSum 3 [Str ''g'', Str ''t'']]"
  by (simp add: getConsumerGroupMetrics_def build_request_def scenario_exporter_def scenario_broker_def
      scenario_offset_def scenario_blocks_def topic_blocks_def offset_lookup_def ErrNoError_def
      add_all_partitions_def Let_def)

theorem consumergroup_lag_value_witness:
  "topicConsumed scenario_blocks \<and> distinct (map fst scenario_blocks)
   \<and> (0, \<lparr>Offset = 7, Err = ErrNoError\<rparr>) \<in> set scenario_blocks
   \<and> offset_lookup scenario_offset ''t'' 0 = Some 10
   \<and> (\<forall>v. MustNewConstMetric consumergroupLag v [Str ''g'', Str ''t'', FormatInt 0]
               \<in> set (topic_blocks scenario_offset ''g'' (''t'', scenario_blocks))
             \<longleftrightarrow> v = 3)"
proof -
  have h1: "topicConsumed scenario_blocks"
    by (simp add: scenario_blocks_def)
  have h2: "distinct (map fst scenario_blocks)"
    by (simp add: scenario_blocks_def)
  have h3: "(0, \<lparr>Offset = 7, Err = ErrNoError\<rparr>) \<in> set scenario_blocks"
    by (simp add: scenario_blocks_def)
  have h4: "Err \<lparr>Offset = 7, Err = ErrNoError\<rparr> = ErrNoError"
    by simp
  have h5: "offset_lookup scenario_offset ''t'' 0 = Some 10"
    by (simp add: scenario_offset_def offset_lookup_def)
  from consumergroup_lag_value [OF h1 h2 h3 h4 h5, of "''g''"]
  show ?thesis using h1 h2 h3 h5 by simp
qed


lemma partitions_loop_remove1:
  "Err b \<noteq> ErrNoError \<Longrightarrow>
   partitions_loop offset g t (remove1 (p, b) blocks) cs ls = partitions_loop offset g t blocks cs ls"
proof (induction blocks arbitrary: cs ls)
  case Nil
  show ?case by simp
next
  case (Cons a blocks)
  show ?case
    by (cases a) (auto simp: Cons Let_def split_beta split: option.splits)
qed

lemma current_offset_in_block_metrics:
  "MustNewConstMetric consumergroupCurrentOffset v [Str g, Str t, FormatInt (sint p)] \<in> set (block_metrics offset g t (q, b)) \<longleftrightarrow>
     q = p \<and> Err b = ErrNoError \<and> v = sint (Offset b)"
  by (cases "offset_lookup offset t q") (auto simp: block_metrics_def sint_inj)

text \<open>
  Claim C10. A block whose \<^verbatim>\<open>Err\<close> is not \<^verbatim>\<open>ErrNoError\<close> is passed over by
  \<^verbatim>\<open>continue\<close>: the topic's samples are those of the loop run on the other blocks,
  followed by the two sums of that run, and no \<^verbatim>\<open>consumergroup_current_offset\<close> or
  \<^verbatim>\<open>consumergroup_lag\<close> sample carries the partition of the block.
\<close>

theorem errored_block_is_skipped:
  assumes "topicConsumed blocks"
    and "distinct (map fst blocks)"
    and "(p, b) \<in> set blocks"
    and "Err b \<noteq> ErrNoError"
  shows "topic_blocks offset g (topic, blocks) =
           (let (ms, currentOffsetSum, lagSum) =
                  partitions_loop offset g topic (remove1 (p, b) blocks) 0 0
            in ms @
               [MustNewConstMetric consumergroupCurrentOffsetSum (sint currentOffsetSum)
                  [Str g, Str topic],
                MustNewConstMetric consumergroupLagSum (sint lagSum) [Str g, Str topic]])
       \<and> (\<forall>v. MustNewConstMetric consumergroupCurrentOffset v
                  [Str g, Str topic, FormatInt (sint p)]
                \<notin> set (topic_blocks offset g (topic, blocks)))
       \<and> (\<forall>v. MustNewConstMetric consumergroupLag v
                  [Str g, Str topic, FormatInt (sint p)]
                \<notin> set (topic_blocks offset g (topic, blocks)))"
proof -
  have uniq: "b' = b" if "(p, b') \<in> set blocks" for b'
    using assms(2) that assms(3) by (rule eq_key_imp_eq_value)
  have eq: "topic_blocks offset g (topic, blocks) =
           (let (ms, currentOffsetSum, lagSum) =
                  partitions_loop offset g topic (remove1 (p, b) blocks) 0 0
            in ms @
               [MustNewConstMetric consumergroupCurrentOffsetSum (sint currentOffsetSum)
                  [Str g, Str topic],
                MustNewConstMetric consumergroupLagSum (sint lagSum) [Str g, Str topic]])"
    using assms(1) by (simp add: topic_blocks_def partitions_loop_remove1 [OF assms(4)])
  have no_cur: "MustNewConstMetric consumergroupCurrentOffset v
                  [Str g, Str topic, FormatInt (sint p)]
                \<notin> set (topic_blocks offset g (topic, blocks))" for v
  proof
    assume "MustNewConstMetric consumergroupCurrentOffset v
              [Str g, Str topic, FormatInt (sint p)] \<in> set (topic_blocks offset g (topic, blocks))"
    then obtain q b' where "(q, b') \<in> set blocks"
      and "MustNewConstMetric consumergroupCurrentOffset v
              [Str g, Str topic, FormatInt (sint p)] \<in> set (block_metrics offset g topic (q, b'))"
      by (auto simp: topic_blocks_consumed [OF assms(1)])
    then have "(p, b') \<in> set blocks" "Err b' = ErrNoError"
      by (simp_all add: current_offset_in_block_metrics)
    with uniq assms(4) show False by blast
  qed
  have no_lag: "MustNewConstMetric consumergroupLag v
                  [Str g, Str topic, FormatInt (sint p)]
                \<notin> set (topic_blocks offset g (topic, blocks))" for v
  proof
    assume "MustNewConstMetric consumergroupLag v
              [Str g, Str topic, FormatInt (sint p)] \<in> set (topic_blocks offset g (topic, blocks))"
    then obtain q b' where "(q, b') \<in> set blocks"
      and "MustNewConstMetric consumergroupLag v
              [Str g, Str topic, FormatInt (sint p)] \<in> set (block_metrics offset g topic (q, b'))"
      by (auto simp: topic_blocks_consumed [OF assms(1)])
    then have "(p, b') \<in> set blocks" "Err b' = ErrNoError"
      by (simp_all add: lag_in_block_metrics)
    with uniq assms(4) show False by blast
  qed
  from eq no_cur no_lag show ?thesis by blast
qed

lemma topicConsumed_iff:
  "topicConsumed blocks \<longleftrightarrow> (\<exists>(p, b) \<in> set blocks. Offset b \<noteq> - 1)"
  by (induction blocks rule: topicConsumed.induct) auto

text \<open>
  Claim C3, as the code has it. The sums are sent exactly for a topic of which some block
  has a committed offset other than -1. \<^verbatim>\<open>consumergroup_current_offset_sum\<close> adds the
  committed offset of every block without error, the -1 of a partition without committed
  offset included; \<^verbatim>\<open>consumergroup_lag_sum\<close> adds the lag of the blocks without error
  whose committed offset is not -1 and whose partition is in the offset table. In the
  scenario the two sums are 6 and 3.
\<close>

theorem consumergroup_sums:
  "topic_blocks offset g (topic, blocks) =
     (if (\<exists>(p, b) \<in> set blocks. Offset b \<noteq> - 1) then
        concat (map (block_metrics offset g topic) blocks) @
        [MustNewConstMetric consumergroupCurrentOffsetSum
           (sint (sum_list (map (\<lambda>(p, b). Offset b)
                    (filter (\<lambda>(p, b). Err b = ErrNoError) blocks))))
           [Str g, Str topic],
         MustNewConstMetric consumergroupLagSum
           (sint (sum_list (map (\<lambda>(p, b). the (offset_lookup offset topic p) - Offset b)
                    (filter (\<lambda>(p, b). Err b = ErrNoError \<and> Offset b \<noteq> - 1
                                       \<and> offset_lookup offset topic p \<noteq> None) blocks))))
           [Str g, Str topic]]
      else [])
   \<and> getConsumerGroupMetrics scenario_exporter scenario_offset scenario_broker =
     [MustNewConstMetric consumergroupMembers 0 [Str ''g''],
      MustNewConstMetric consumergroupCurrentOffset 7 [Str ''g'', Str ''t'', FormatInt 0],
      MustNewConstMetric consumergroupLag 3 [Str ''g'', Str ''t'', FormatInt 0],
      MustNewConstMetric consumergroupCurrentOffset (- 1) [Str ''g'', Str ''t'', FormatInt 1],
      MustNewConstMetric consumergroupLag (- 1) [Str ''g'', Str ''t'', FormatInt 1],
      MustNewConstMetric consumergroupCurrentOffsetSum 6 [Str ''g'', Str ''t''],
      MustNewConstMetric consumergroupLagSum 3 [Str ''g'', Str ''t'']]"
proof -
  have "topic_blocks offset g (topic, blocks) = []" if "\<not> topicConsumed blocks"
    using that by (simp add: topic_blocks_def)
  moreover have "fst (snd (partitions_loop offset g topic blocks 0 0)) =
      sum_list (map (\<lambda>(p, b). Offset b) (filter (\<lambda>(p, b). Err b = ErrNoError) blocks))"
    using partitions_loop_sums [of offset g topic blocks 0 0] by simp
  moreover have "snd (snd (partitions_loop offset g topic blocks 0 0)) =
      sum_list (map (\<lambda>(p, b). the (offset_lookup offset topic p) - Offset b)
                    (filter (\<lambda>(p, b). Err b = ErrNoError \<and> Offset b \<noteq> - 1
                                       \<and> offset_lookup offset topic p \<noteq> None) blocks))"
    using partitions_loop_sums [of offset g topic blocks 0 0] by simp
  ultimately show ?thesis
    using topic_blocks_consumed [of blocks offset g topic]
    by (simp add: scenario_run topicConsumed_iff [symmetric])
qed

text \<open>
  In the scenario the current-offset sum is 7 + (-1) = 6, not 7: the sentinel is added.
\<close>

theorem current_offset_sum_counterexample:
  "MustNewConstMetric consumergroupCurrentOffsetSum 7 [Str ''g'', Str ''t'']
     \<notin> set (getConsumerGroupMetrics scenario_exporter scenario_offset scenario_broker)
   \<and> MustNewConstMetric consumergroupCurrentOffsetSum 6 [Str ''g'', Str ''t'']
     \<in> set (getConsumerGroupMetrics scenario_exporter scenario_offset scenario_broker)"
  by (simp add: scenario_run)


theorem errored_block_is_skipped_witness:
  "topicConsumed [(0, \<lparr>Offset = 7, Err = 3\<rparr>), (1, \<lparr>Offset = 12, Err = ErrNoError\<rparr>)]
   \<and> (3 :: KError) \<noteq> ErrNoError
   \<and> topic_blocks scenario_offset ''g''
         (''t'', [(0, \<lparr>Offset = 7, Err = 3\<rparr>), (1, \<lparr>Offset = 12, Err = ErrNoError\<rparr>)]) =
       [MustNewConstMetric consumergroupCurrentOffset 12 [Str ''g'', Str ''t'', FormatInt 1],
        MustNewConstMetric consumergroupLag 8 [Str ''g'', Str ''t'', FormatInt 1],
        MustNewConstMetric consumergroupCurrentOffsetSum 12 [Str ''g'', Str ''t''],
        MustNewConstMetric consumergroupLagSum 8 [Str ''g'', Str ''t'']]"
proof -
  let ?blocks = "[(0 :: int32, \<lparr>Offset = 7, Err = 3\<rparr>), (1, \<lparr>Offset = 12, Err = ErrNoError\<rparr>)]"
  have h1: "topicConsumed ?blocks"
    by simp
  have h2: "distinct (map fst ?blocks)"
    by simp
  have h3: "(0, \<lparr>Offset = 7, Err = 3\<rparr>) \<in> set ?blocks"
    by simp
  have h4: "Err \<lparr>Offset = 7, Err = 3\<rparr> \<noteq> ErrNoError"
    by (simp add: ErrNoError_def)
  from errored_block_is_skipped [OF h1 h2 h3 h4, of scenario_offset "''g''" "''t''"]
  have "topic_blocks scenario_offset ''g'' (''t'', ?blocks) =
           (let (ms, currentOffsetSum, lagSum) =
                  partitions_loop scenario_offset ''g'' ''t''
                    (remove1 (0, \<lparr>Offset = 7, Err = 3\<rparr>) ?blocks) 0 0
            in ms @
               [MustNewConstMetric consumergroupCurrentOffsetSum (sint currentOffsetSum)
                  [Str ''g'', Str ''t''],
                MustNewConstMetric consumergroupLagSum (sint lagSum) [Str ''g'', Str ''t'']])"
    by blast
  then show ?thesis
    using h1 h4 by (simp add: scenario_offset_def offset_lookup_def ErrNoError_def)
qed

theorem consumergroup_sums_witness:
  "topic_blocks scenario_offset ''g'' (''t'', scenario_blocks) =
     [MustNewConstMetric consumergroupCurrentOffset 7 [Str ''g'', Str ''t'', FormatInt 0],
      MustNewConstMetric consumergroupLag 3 [Str ''g'', Str ''t'', FormatInt 0],
      MustNewConstMetric consumergroupCurrentOffset (- 1) [Str ''g'', Str ''t'', FormatInt 1],
      MustNewConstMetric consumergroupLag (- 1) [Str ''g'', Str ''t'', FormatInt 1],
      MustNewConstMetric consumergroupCurrentOffsetSum 6 [Str ''g'', Str ''t''],
      MustNewConstMetric consumergroupLagSum 3 [Str ''g'', Str ''t'']]"
proof -
  from consumergroup_sums [of scenario_offset "''g''" "''t''" scenario_blocks]
  have "topic_blocks scenario_offset ''g'' (''t'', scenario_blocks) =
     (if (\<exists>(p, b) \<in> set scenario_blocks. Offset b \<noteq> - 1) then
        concat (map (block_metrics scenario_offset ''g'' ''t'') scenario_blocks) @
        [MustNewConstMetric consumergroupCurrentOffsetSum
           (sint (sum_list (map (\<lambda>(p, b). Offset b)
                    (filter (\<lambda>(p, b). Err b = ErrNoError) scenario_blocks))))
           [Str ''g'', Str ''t''],
         MustNewConstMetric consumergroupLagSum
           (sint (sum_list (map (\<lambda>(p, b). the (offset_lookup scenario_offset ''t'' p) - Offset b)
                    (filter (\<lambda>(p, b). Err b = ErrNoError \<and> Offset b \<noteq> - 1
                                       \<and> offset_lookup scenario_offset ''t'' p \<noteq> None) scenario_blocks))))
           [Str ''g'', Str ''t'']]
      else [])"
    by (rule conjunct1)
  then show ?thesis
    by (simp add: scenario_blocks_def scenario_offset_def block_metrics_def offset_lookup_def
        ErrNoError_def)
qed

text \<open>
  Claim C5, evaluated. Without \<^verbatim>\<open>offsetShowAll\<close>, a member of \<open>g1\<close> whose assignment does
  not decode makes the closure return (line 585): the healthy group \<open>g2\<close> that follows on
  the same broker is not processed, although it is when \<open>g1\<close> is absent.
\<close>

theorem malformed_assignment_aborts_broker_task:
  "getConsumerGroupMetrics members_only_exporter scenario_offset
     (broker_of_groups
        [\<lparr>GroupId = ''g1'', Members = [(''m1'', malformed_member)]\<rparr>,
         \<lparr>GroupId = ''g2'', Members = [(''m2'', healthy_member)]\<rparr>]) = []
   \<and> getConsumerGroupMetrics members_only_exporter scenario_offset
     (broker_of_groups [\<lparr>GroupId = ''g2'', Members = [(''m2'', healthy_member)]\<rparr>]) =
       [MustNewConstMetric consumergroupMembers 1 [Str ''g2''],
        MustNewConstMetric consumergroupCurrentOffset 7 [Str ''g2'', Str ''t'', FormatInt 0],
        MustNewConstMetric consumergroupLag 3 [Str ''g2'', Str ''t'', FormatInt 0],
        MustNewConstMetric consumergroupCurrentOffsetSum 7 [Str ''g2'', Str ''t''],
        MustNewConstMetric consumergroupLagSum 3 [Str ''g2'', Str ''t'']]"
  by (simp add: getConsumerGroupMetrics_def build_request_def members_only_exporter_def scenario_exporter_def
      broker_of_groups_def malformed_member_def healthy_member_def scenario_offset_def
      topic_blocks_def offset_lookup_def ErrNoError_def AddPartition_def Let_def)

text \<open>
  Claim C6, evaluated. The group \<open>g1\<close> is listed, passes the filter and is described, but the
  return of line 585 comes before line 594: without \<^verbatim>\<open>offsetShowAll\<close> no
  \<^verbatim>\<open>consumergroup_members\<close> sample is sent for it when the assignment of one of its two
  members does not decode. With \<^verbatim>\<open>offsetShowAll\<close> the sample is sent.
\<close>

theorem members_metric_missing:
  "MustNewConstMetric consumergroupMembers 2 [Str ''g1'']
     \<notin> set (getConsumerGroupMetrics members_only_exporter scenario_offset
              (broker_of_groups
                 [\<lparr>GroupId = ''g1'',
                   Members = [(''m1'', healthy_member), (''m2'', malformed_member)]\<rparr>]))
   \<and> MustNewConstMetric consumergroupMembers 2 [Str ''g1'']
     \<in> set (getConsumerGroupMetrics scenario_exporter scenario_offset
              (broker_of_groups
                 [\<lparr>GroupId = ''g1'',
                   Members = [(''m1'', healthy_member), (''m2'', malformed_member)]\<rparr>]))"
  by (simp add: getConsumerGroupMetrics_def build_request_def members_only_exporter_def scenario_exporter_def
      broker_of_groups_def malformed_member_def healthy_member_def scenario_offset_def
      topic_blocks_def offset_lookup_def ErrNoError_def AddPartition_def add_all_partitions_def Let_def)

text \<open>
  With \<^verbatim>\<open>offsetShowAll\<close> the request is always built, and the member count of every
  described group is sent whatever \<^verbatim>\<open>FetchOffset\<close> answers.
\<close>

lemma members_emitted_with_offsetShowAll:
  assumes "offsetShowAll e"
    and "g \<in> set groups"
  shows "MustNewConstMetric consumergroupMembers (int (length (Members g))) [Str (GroupId g)]
           \<in> set (groups_loop e offset broker groups)"
  using assms by (induction groups) (auto simp: build_request_def Let_def split: sum.splits)

text \<open>
  A member with an empty assignment: \<^verbatim>\<open>GetMemberAssignment\<close> answers nil without an
  error, and without \<^verbatim>\<open>offsetShowAll\<close> line 587 dereferences it. With
  \<^verbatim>\<open>offsetShowAll\<close> the assignments are not read.
\<close>

lemma unassigned_member_panics:
  "getConsumerGroupMetrics_panics members_only_exporter offset unassigned_broker
   \<and> getConsumerGroupMetrics members_only_exporter offset unassigned_broker = []
   \<and> \<not> getConsumerGroupMetrics_panics scenario_exporter offset unassigned_broker"
  by (simp add: getConsumerGroupMetrics_panics_def getConsumerGroupMetrics_def build_request_def
      members_only_exporter_def scenario_exporter_def unassigned_broker_def broker_of_groups_def
      unassigned_member_def Let_def)




section \<open>Properties of \<^verbatim>\<open>getTopicMetrics\<close>\<close>

lemma leader_is_preferred_eq:
  "leader_is_preferred broker replicas =
     Some (case (broker, replicas) of (Some b, Some (r # rs)) \<Rightarrow> ID b = r | _ \<Rightarrow> False)"
  by (auto simp: leader_is_preferred_def len_def index_def split: option.splits list.splits)

lemma zookeeper_lag_desc:
  "MustNewConstMetric d v ls \<in> set (zookeeper_lag e client topic p c) \<Longrightarrow> d = consumergroupLagZookeeper"
  by (auto simp: zookeeper_lag_def Let_def split: if_splits)

text \<open>
  Claim C8, as the code has it. The condition of line 466 never faults, and an iteration
  that completes sends exactly one \<^verbatim>\<open>topic_partition_leader_is_preferred\<close> sample for the
  partition: 1 when \<^verbatim>\<open>broker\<close> and \<^verbatim>\<open>replicas\<close> are not nil, the list is not empty and
  the leader's id is its first element, 0 otherwise (nil or empty list, nil broker). The
  test reads the values that \<^verbatim>\<open>Leader\<close> and \<^verbatim>\<open>Replicas\<close> returned, whether or not they
  came with an error. The iteration completes when the inner map of the topic exists (line
  415 made it) and \<^verbatim>\<open>Leader\<close> did not return nil without an error.
\<close>

theorem preferred_replica_indicator:
  assumes "map_of offset topic \<noteq> None"
    and "fst (Leader client topic p) \<noteq> None \<or> snd (Leader client topic p) \<noteq> None"
  shows "leader_is_preferred (fst (Leader client topic p)) (fst (Replicas client topic p)) \<noteq> None
       \<and> (\<exists>offset' ms. getTopicMetrics_partition e client topic offset p = Some (offset', ms)
            \<and> (\<forall>v. MustNewConstMetric topicPartitionUsesPreferredReplica v
                       [Str topic, FormatInt (sint p)] \<in> set ms
                     \<longleftrightarrow> v = (case (fst (Leader client topic p), fst (Replicas client topic p)) of
                                (Some b, Some (r # rs)) \<Rightarrow> if ID b = r then 1 else 0
                              | _ \<Rightarrow> 0)))"
proof -
  obtain broker err1 where L: "Leader client topic p = (broker, err1)"
    by (cases "Leader client topic p")
  obtain currentOffset err2 where G: "GetOffset client topic p OffsetNewest = (currentOffset, err2)"
    by (cases "GetOffset client topic p OffsetNewest")
  obtain oldestOffset err3 where O: "GetOffset client topic p OffsetOldest = (oldestOffset, err3)"
    by (cases "GetOffset client topic p OffsetOldest")
  obtain replicas err4 where R: "Replicas client topic p = (replicas, err4)"
    by (cases "Replicas client topic p")
  obtain inSyncReplicas err5 where I: "InSyncReplicas client topic p = (inSyncReplicas, err5)"
    by (cases "InSyncReplicas client topic p")
  obtain inner where M: "map_of offset topic = Some inner"
    using assms(1) by blast
  from assms(2) L have B: "broker \<noteq> None \<or> err1 \<noteq> None" by simp
  show ?thesis
    using B zookeeper_lag_desc [of topicPartitionUsesPreferredReplica _ _ e client topic p currentOffset]
    apply (simp add: getTopicMetrics_partition_def L G O R I M Let_def leader_is_preferred_eq offset_store_def)
    apply (auto split: option.splits list.splits)
    done
qed

theorem preferred_replica_indicator_witness:
  "map_of [(''t'', [])] ''t'' \<noteq> (None :: (int32 \<times> int64) list option)
   \<and> fst (Leader scenario_client ''t'' 0) \<noteq> None
   \<and> (\<exists>offset' ms.
         getTopicMetrics_partition scenario_exporter scenario_client ''t'' [(''t'', [])] 0
           = Some (offset', ms)
         \<and> (\<forall>v. MustNewConstMetric topicPartitionUsesPreferredReplica v
                    [Str ''t'', FormatInt 0] \<in> set ms \<longleftrightarrow> v = 1))"
proof -
  have h1: "map_of [(''t'', [])] ''t'' \<noteq> (None :: (int32 \<times> int64) list option)"
    by simp
  have h2: "fst (Leader scenario_client ''t'' 0) \<noteq> None
            \<or> snd (Leader scenario_client ''t'' 0) \<noteq> None"
    by (simp add: scenario_client_def)
  from preferred_replica_indicator [OF h1 h2, of scenario_exporter]
  show ?thesis
    using h1 by (simp add: scenario_client_def scenario_broker_def)
qed

text \<open>
  A replica fetch that fails and still returns the list: 1 is sent, not 0.
\<close>

theorem preferred_despite_failed_fetch:
  "snd (Replicas replica_unavailable_client ''t'' 0) \<noteq> None
   \<and> getTopicMetrics_partition scenario_exporter replica_unavailable_client ''t'' [(''t'', [])] 0 =
       Some ([(''t'', [(0, 10)])],
         [MustNewConstMetric topicPartitionLeader 1 [Str ''t'', FormatInt 0],
          MustNewConstMetric topicCurrentOffset 10 [Str ''t'', FormatInt 0],
          MustNewConstMetric topicOldestOffset 5 [Str ''t'', FormatInt 0],
          MustNewConstMetric topicPartitionInSyncReplicas 2 [Str ''t'', FormatInt 0],
          MustNewConstMetric topicPartitionUsesPreferredReplica 1 [Str ''t'', FormatInt 0],
          MustNewConstMetric topicUnderReplicatedPartition 1 [Str ''t'', FormatInt 0]])"
  by (simp add: getTopicMetrics_partition_def scenario_exporter_def scenario_client_def
      replica_unavailable_client_def
      scenario_broker_def Let_def leader_is_preferred_def
      under_replicated_def len_def index_def zookeeper_lag_def offset_store_def OffsetNewest_def
      OffsetOldest_def)

text \<open>
  The samples of an iteration do not depend on the offset table, and the table changes by
  the one assignment of line 432.
\<close>

lemma getTopicMetrics_partition_table:
  "getTopicMetrics_partition e client topic offset p =
     (case getTopicMetrics_partition e client topic [(topic, [])] p of
        None \<Rightarrow> None
      | Some (x, ms) \<Rightarrow>
          if snd (GetOffset client topic p OffsetNewest) \<noteq> None then Some (offset, ms)
          else map_option (\<lambda>offset'. (offset', ms))
                 (offset_store offset topic p (fst (GetOffset client topic p OffsetNewest))))"
proof -
  obtain broker err1 where L: "Leader client topic p = (broker, err1)"
    by (cases "Leader client topic p")
  obtain currentOffset err2 where G: "GetOffset client topic p OffsetNewest = (currentOffset, err2)"
    by (cases "GetOffset client topic p OffsetNewest")
  obtain oldestOffset err3 where O: "GetOffset client topic p OffsetOldest = (oldestOffset, err3)"
    by (cases "GetOffset client topic p OffsetOldest")
  obtain replicas err4 where R: "Replicas client topic p = (replicas, err4)"
    by (cases "Replicas client topic p")
  obtain inSyncReplicas err5 where I: "InSyncReplicas client topic p = (inSyncReplicas, err5)"
    by (cases "InSyncReplicas client topic p")
  show ?thesis
    unfolding getTopicMetrics_partition_def L G O R I Let_def leader_is_preferred_eq
    by (cases err1; cases broker; cases err2; cases "map_of offset topic";
        simp add: offset_store_def)
qed

lemma getTopicMetrics_partition_SomeD:
  assumes "getTopicMetrics_partition e client topic offset p = Some (offset', ms)"
  shows "ms = partition_samples e client topic p"
    and "snd (GetOffset client topic p OffsetNewest) \<noteq> None \<Longrightarrow> offset' = offset"
    and "snd (GetOffset client topic p OffsetNewest) = None \<Longrightarrow>
           offset_store offset topic p (fst (GetOffset client topic p OffsetNewest)) = Some offset'"
  using assms
  by (subst (asm) getTopicMetrics_partition_table;
      auto simp: partition_samples_def split: option.splits if_splits)+

text \<open>A call of \<^verbatim>\<open>getTopicMetrics\<close> that runs alone sends \<open>topic_samples\<close>.\<close>

lemma getTopicMetrics_loop_samples:
  assumes "getTopicMetrics_loop e client topic ps offset = Some (offset', ms)"
  shows "ms = concat (map (partition_samples e client topic) ps)"
  using assms
proof (induction ps arbitrary: offset ms)
  case Nil
  then show ?case by simp
next
  case (Cons p ps)
  from Cons.prems obtain offset1 ms1 ms2 where
    step: "getTopicMetrics_partition e client topic offset p = Some (offset1, ms1)"
    and rest: "getTopicMetrics_loop e client topic ps offset1 = Some (offset', ms2)"
    and ms: "ms = ms1 @ ms2"
    by (auto split: Option.bind_splits)
  from getTopicMetrics_partition_SomeD(1) [OF step] Cons.IH [OF rest] ms
  show ?case by simp
qed

lemma getTopicMetrics_samples:
  assumes "getTopicMetrics e client topic offset = Some (offset', ms)"
  shows "ms = topic_samples e client topic"
proof (cases "getTopicMetrics_start e client topic")
  case None
  with assms show ?thesis
    by (simp add: getTopicMetrics_def topic_samples_def)
next
  case (Some a)
  then obtain m ps where start: "getTopicMetrics_start e client topic = Some (m, ps)"
    by (cases a) auto
  with assms obtain ms' where
    "getTopicMetrics_loop e client topic ps (offset_make offset topic) = Some (offset', ms')"
    and "ms = m # ms'"
    by (auto simp: getTopicMetrics_def split: Option.bind_splits)
  with getTopicMetrics_loop_samples [of e client topic ps "offset_make offset topic" offset' ms']
  show ?thesis
    by (simp add: topic_samples_def start)
qed

lemma topic_samples_rejected: "\<not> accepted e topic \<Longrightarrow> topic_samples e client topic = []"
  by (auto simp: topic_samples_def getTopicMetrics_start_def accepted_def)





lemma offset_lookup_make:
  "offset_lookup (offset_make offset topic) topic' p =
     (if topic' = topic then None else offset_lookup offset topic' p)"
  by (simp add: offset_lookup_def offset_make_def update_conv')

lemma offset_lookup_store:
  "offset_store offset topic p v = Some offset' \<Longrightarrow>
   offset_lookup offset' topic' p' =
     (if topic' = topic \<and> p' = p then Some v else offset_lookup offset topic' p')"
  by (auto simp: offset_lookup_def offset_store_def update_conv' split: option.splits if_splits)

lemma keys_offset_make:
  "fst ` set (offset_make offset topic) = insert topic (fst ` set offset)"
  by (simp add: offset_make_def dom_update)

lemma keys_offset_store:
  assumes "offset_store offset topic p v = Some offset'"
  shows "fst ` set offset' = fst ` set offset"
proof -
  from assms obtain inner where inner: "map_of offset topic = Some inner"
    and offset': "offset' = AList.update topic (AList.update p v inner) offset"
    by (auto simp: offset_store_def split: option.splits)
  from inner have "topic \<in> fst ` set offset"
    using map_of_eq_None_iff [of offset topic] by auto
  with offset' show ?thesis
    by (auto simp: dom_update)
qed

lemma offset_store_Some:
  "topic \<in> fst ` set offset \<Longrightarrow> \<exists>offset'. offset_store offset topic p v = Some offset'"
  by (cases "map_of offset topic") (auto simp: offset_store_def map_of_eq_None_iff)

section \<open>Properties of the worker pool\<close>

subsection \<open>Sums over the workers\<close>

lemma sum_list_map_update:
  fixes f :: "'a \<Rightarrow> 'b::comm_monoid_add"
  shows "i < length xs \<Longrightarrow> sum_list (map f (xs[i := y])) + f (xs ! i) = sum_list (map f xs) + f y"
proof (induction xs arbitrary: i)
  case Nil
  then show ?case by simp
next
  case (Cons x xs)
  show ?case
  proof (cases i)
    case 0
    then show ?thesis by (simp add: ac_simps)
  next
    case (Suc j)
    with Cons.prems have "j < length xs" by simp
    from Cons.IH [OF this] show ?thesis
      using Suc by (simp add: ac_simps)
  qed
qed

lemma sum_list_all_zero:
  fixes f :: "'b \<Rightarrow> 'a::comm_monoid_add"
  shows "\<forall>x \<in> set xs. f x = 0 \<Longrightarrow> (\<Sum>x\<leftarrow>xs. f x) = 0"
  by (induction xs) simp_all


lemma exists_update:
  assumes "i < length ws" and "\<exists>w \<in> set ws. P w" and "P (ws ! i) \<Longrightarrow> P w'"
  shows "\<exists>w \<in> set (ws[i := w']). P w"
proof -
  from assms(2) obtain j where j: "j < length ws" "P (ws ! j)"
    by (auto simp: in_set_conv_nth)
  show ?thesis
  proof (cases "j = i")
    case True
    with j assms(3) have "P w'" by simp
    moreover from assms(1) have "w' \<in> set (ws[i := w'])" by (rule set_update_memI)
    ultimately show ?thesis by blast
  next
    case False
    with j have "ws[i := w'] ! j = ws ! j" "j < length (ws[i := w'])" by simp_all
    with j(2) show ?thesis by (metis nth_mem)
  qed
qed

lemma in_set_updateD:
  "w \<in> set (ws[i := w']) \<Longrightarrow> w = w' \<or> w \<in> set ws"
  using set_update_subset_insert [of ws i w'] by auto

lemma length_spawn: "length (spawn w N) = nat (N + 1 - w)"
proof (induction w N rule: spawn.induct)
  case (1 w N)
  show ?case
  proof (cases "w \<le> N")
    case True
    with 1 show ?thesis by (subst spawn.simps) simp
  next
    case False
    then show ?thesis by (subst spawn.simps) simp
  qed
qed

lemma set_spawn: "set (spawn w N) \<subseteq> {Idle}"
proof (induction w N rule: spawn.induct)
  case (1 w N)
  show ?case
  proof (cases "w \<le> N")
    case True
    with 1 show ?thesis by (subst spawn.simps) simp
  next
    case False
    then show ?thesis by (subst spawn.simps) simp
  qed
qed

lemma sum_list_spawn:
  fixes f :: "worker \<Rightarrow> 'a::comm_monoid_add"
  assumes "f Idle = 0"
  shows "(\<Sum>w\<leftarrow>spawn w0 N. f w) = 0"
proof (rule sum_list_all_zero)
  show "\<forall>x \<in> set (spawn w0 N). f x = 0"
    using set_spawn [of w0 N] assms by auto
qed

lemma minx_min: "minx x y = min x y"
  by (simp add: minx_def min_def)

lemma worker_count_pos:
  assumes "topics \<noteq> []" and "1 \<le> topicWorkers e"
  shows "1 \<le> worker_count e topics"
proof -
  from assms(1) have "1 \<le> int (length topics)"
    by (cases topics) simp_all
  with assms(2) show ?thesis
    by (auto simp: worker_count_def minx_def Let_def)
qed

lemma pool_init_simps:
  "pending (pool_init e client topics) = topics"
  "chan_closed (pool_init e client topics) = False"
  "wg_count (pool_init e client topics) = 0"
  "workers (pool_init e client topics) = spawn 1 (worker_count e topics)"
  "table (pool_init e client topics) = []"
  "sent (pool_init e client topics) = broker_metrics client"
  "panicked (pool_init e client topics) = False"
  by (simp_all add: pool_init_def)

subsection \<open>Every step keeps the invariants\<close>

lemma busy_count_update:
  "i < length ws \<Longrightarrow> busy_count (ws[i := w]) = busy_count ws - (if busy (ws ! i) then 1 else 0) + (if busy w then 1 else 0)"
  using sum_list_map_update [of i ws "\<lambda>w. if busy w then 1 else (0::int)" w]
  by (simp add: busy_count_def)

lemma not_busy: "\<not> busy w \<longleftrightarrow> w = Idle \<or> w = Exited"
  by (cases w) (simp_all add: busy_def)

lemma busy_count_zero:
  "busy_count ws = 0 \<Longrightarrow> w \<in> set ws \<Longrightarrow> \<not> busy w"
proof (induction ws)
  case Nil
  then show ?case by simp
next
  case (Cons a ws)
  have nonneg: "0 \<le> busy_count ws"
    unfolding busy_count_def by (rule sum_list_nonneg) auto
  from Cons.prems(1) have "(if busy a then 1 else 0) + busy_count ws = 0"
    by (simp add: busy_count_def)
  with nonneg have "\<not> busy a" "busy_count ws = 0"
    by (auto split: if_splits)
  with Cons show ?case by auto
qed

lemma busy_count_nonzero:
  "busy_count ws \<noteq> 0 \<Longrightarrow> \<exists>i < length ws. busy (ws ! i)"
proof -
  assume "busy_count ws \<noteq> 0"
  then have "\<not> (\<forall>w \<in> set ws. (if busy w then 1 else (0::int)) = 0)"
    unfolding busy_count_def using sum_list_all_zero [of ws "\<lambda>w. if busy w then 1 else (0::int)"]
    by blast
  then obtain w where "w \<in> set ws" "busy w"
    by (auto split: if_splits)
  then show ?thesis
    by (auto simp: in_set_conv_nth)
qed

lemma wg_step:
  assumes "pool_step e client s s'" and "wg_count s = busy_count (workers s)"
  shows "wg_count s' = busy_count (workers s')"
  using assms by (induction rule: pool_step.induct) (simp_all add: busy_count_update busy_def)

lemma owed_simps:
  "owed e client Idle = {#}"
  "owed e client Exited = {#}"
  "owed e client (Received topic) = mset (topic_samples e client topic)"
  "owed e client (Running topic ps) = mset (concat (map (partition_samples e client topic) ps))"
  by (simp_all add: owed_def)

lemma owed_update:
  "i < length ws \<Longrightarrow>
   (\<Sum>w\<leftarrow>ws[i := w']. owed e client w) + owed e client (ws ! i) =
   (\<Sum>w\<leftarrow>ws. owed e client w) + owed e client w'"
  by (rule sum_list_map_update)

lemma outstanding_step:
  assumes "pool_step e client s s'"
  shows "outstanding e client s' = outstanding e client s"
  using assms
proof (induction rule: pool_step.induct)
  case (skip s topic rest)
  then show ?case by (simp add: outstanding_def topic_samples_rejected)
next
  case (send s topic rest i)
  from owed_update [OF send(4), of e client "Received topic"] send(5)
  show ?case using send(2) by (simp add: outstanding_def owed_simps ac_simps)
next
  case (close s)
  then show ?case by (simp add: outstanding_def)
next
  case (exit s i)
  from owed_update [OF exit(3), of e client Exited] exit(4)
  show ?case by (simp add: outstanding_def owed_simps)
next
  case (return s i topic)
  have "topic_samples e client topic = []"
    using return(4) by (simp add: topic_samples_def)
  with owed_update [OF return(2), of e client Idle] return(3)
  show ?case by (simp add: outstanding_def owed_simps)
next
  case (start s i topic m partitions)
  have "topic_samples e client topic = m # concat (map (partition_samples e client topic) partitions)"
    using start(4) by (simp add: topic_samples_def)
  with owed_update [OF start(2), of e client "Running topic partitions"] start(3)
  show ?case by (simp add: outstanding_def owed_simps ac_simps)
next
  case (iteration s i topic partition' rest offset' ms)
  from owed_update [OF iteration(2), of e client "Running topic rest"] iteration(3)
    getTopicMetrics_partition_SomeD(1) [OF iteration(4)]
  show ?case by (simp add: outstanding_def owed_simps ac_simps)
next
  case (panic s i topic partition' rest)
  then show ?case by (simp add: outstanding_def)
next
  case (finish s i topic)
  from owed_update [OF finish(2), of e client Idle] finish(3)
  show ?case by (simp add: outstanding_def owed_simps)
qed

lemma has_map_step:
  assumes "pool_step e client s s'" and "has_map s"
  shows "has_map s'"
  using assms
proof (induction rule: pool_step.induct)
  case (start s i topic m partitions)
  then show ?case
    unfolding has_map_def by (simp add: nth_list_update keys_offset_make)
next
  case (iteration s i topic partition' rest offset' ms)
  have keys: "fst ` set offset' = fst ` set (table s)"
  proof (cases "snd (GetOffset client topic partition' OffsetNewest) = None")
    case True
    from getTopicMetrics_partition_SomeD(3) [OF iteration(4) True] show ?thesis
      by (rule keys_offset_store)
  next
    case False
    from getTopicMetrics_partition_SomeD(2) [OF iteration(4) False] show ?thesis
      by simp
  qed
  from iteration(2,3,5) show ?case
    unfolding has_map_def by (simp add: nth_list_update keys)
qed (auto simp: has_map_def nth_list_update)

lemma waits_simps:
  "waits topic p Idle = False"
  "waits topic p Exited = False"
  "waits topic p (Received t) = (t = topic)"
  "waits topic p (Running t ps) = (t = topic \<and> p \<in> set ps)"
  by (simp_all add: waits_def)

lemma fetchedD:
  assumes "fetched e client topics topic p v"
  shows "topic \<in> set topics" "accepted e topic"
    "\<exists>ps. getTopicMetrics_start e client topic = Some (MustNewConstMetric topicPartitions (int (length ps)) [Str topic], ps) \<and> p \<in> set ps"
    "GetOffset client topic p OffsetNewest = (v, None)"
  using assms by (auto simp: fetched_def getTopicMetrics_start_def accepted_def)

lemma table_inv_step:
  assumes "pool_step e client s s'" and "table_inv e client topics s"
  shows "table_inv e client topics s'"
  unfolding table_inv_def
proof (intro allI impI)
  fix topic p v
  assume f: "fetched e client topics topic p v"
  let ?held = "\<lambda>s. offset_lookup (table s) topic p = Some v
        \<or> topic \<in> set (pending s)
        \<or> (\<exists>w \<in> set (workers s). waits topic p w)"
  from assms(2) f have old: "?held s"
    unfolding table_inv_def by blast
  from assms(1) old show "?held s'"
  proof (induction rule: pool_step.induct)
    case (skip s t rest)
    from fetchedD(2) [OF f] skip(3) have "t \<noteq> topic" by blast
    with skip(2,4) show ?case by auto
  next
    case (send s t rest i)
    from send(6) consider
      (a) "offset_lookup (table s) topic p = Some v"
      | (b) "topic \<in> set (pending s)"
      | (c) "\<exists>w \<in> set (workers s). waits topic p w"
      by blast
    then show ?case
    proof cases
      case a
      then show ?thesis by simp
    next
      case b
      show ?thesis
      proof (cases "t = topic")
        case True
        from send(4) have "Received t \<in> set ((workers s)[i := Received t])"
          by (rule set_update_memI)
        moreover from True have "waits topic p (Received t)"
          by (simp add: waits_simps)
        ultimately have "\<exists>w \<in> set ((workers s)[i := Received t]). waits topic p w"
          by blast
        then show ?thesis by simp
      next
        case False
        with b send(2) show ?thesis by auto
      qed
    next
      case c
      from exists_update [OF send(4) c, of "Received t"] send(5)
      show ?thesis by (simp add: waits_simps)
    qed
  next
    case (close s)
    then show ?case by simp
  next
    case (exit s i)
    from exit(5) consider
      (a) "offset_lookup (table s) topic p = Some v \<or> topic \<in> set (pending s)"
      | (c) "\<exists>w \<in> set (workers s). waits topic p w"
      by blast
    then show ?case
    proof cases
      case a
      then show ?thesis by auto
    next
      case c
      from exists_update [OF exit(3) c, of Exited] exit(4)
      show ?thesis by (simp add: waits_simps)
    qed
  next
    case (return s i t)
    from fetchedD(3) [OF f] return(4) have "t \<noteq> topic" by auto
    from return(5) consider
      (a) "offset_lookup (table s) topic p = Some v \<or> topic \<in> set (pending s)"
      | (c) "\<exists>w \<in> set (workers s). waits topic p w"
      by blast
    then show ?case
    proof cases
      case a
      then show ?thesis by auto
    next
      case c
      from exists_update [OF return(2) c, of Idle] return(3) \<open>t \<noteq> topic\<close>
      show ?thesis by (simp add: waits_simps)
    qed
  next
    case (start s i t m partitions)
    show ?case
    proof (cases "t = topic")
      case True
      with fetchedD(3) [OF f] start(4) have "p \<in> set partitions" by auto
      with True have "waits topic p (Running t partitions)"
        by (simp add: waits_simps)
      moreover from start(2)
      have "Running t partitions \<in> set ((workers s)[i := Running t partitions])"
        by (rule set_update_memI)
      ultimately have "\<exists>w \<in> set ((workers s)[i := Running t partitions]). waits topic p w"
        by blast
      then show ?thesis by simp
    next
      case False
      from start(5) consider
        (a) "offset_lookup (table s) topic p = Some v"
        | (b) "topic \<in> set (pending s)"
        | (c) "\<exists>w \<in> set (workers s). waits topic p w"
        by blast
      then show ?thesis
      proof cases
        case a
        with False show ?thesis by (simp add: offset_lookup_make)
      next
        case b
        then show ?thesis by simp
      next
        case c
        from exists_update [OF start(2) c, of "Running t partitions"] start(3) False
        show ?thesis by (simp add: waits_simps)
      qed
    qed
  next
    case (iteration s i t partition' rest offset' ms)
    show ?case
    proof (cases "t = topic \<and> partition' = p")
      case True
      with fetchedD(4) [OF f] getTopicMetrics_partition_SomeD(3) [OF iteration(4)]
      have "offset_store (table s) topic p v = Some offset'" by simp
      then have "offset_lookup offset' topic p = Some v"
        by (simp add: offset_lookup_store)
      then show ?thesis by simp
    next
      case False
      have keep: "offset_lookup offset' topic p = offset_lookup (table s) topic p"
      proof (cases "snd (GetOffset client t partition' OffsetNewest) = None")
        case True
        from getTopicMetrics_partition_SomeD(3) [OF iteration(4) True] False show ?thesis
          by (auto simp: offset_lookup_store)
      next
        case False
        from getTopicMetrics_partition_SomeD(2) [OF iteration(4) False] show ?thesis
          by simp
      qed
      from iteration(5) consider
        (a) "offset_lookup (table s) topic p = Some v"
        | (b) "topic \<in> set (pending s)"
        | (c) "\<exists>w \<in> set (workers s). waits topic p w"
        by blast
      then show ?thesis
      proof cases
        case a
        with keep show ?thesis by simp
      next
        case b
        then show ?thesis by simp
      next
        case c
        from exists_update [OF iteration(2) c, of "Running t rest"] iteration(3) False
        show ?thesis by (auto simp: waits_simps)
      qed
    qed
  next
    case (panic s i t partition' rest)
    then show ?case by simp
  next
    case (finish s i t)
    from finish(4) consider
      (a) "offset_lookup (table s) topic p = Some v \<or> topic \<in> set (pending s)"
      | (c) "\<exists>w \<in> set (workers s). waits topic p w"
      by blast
    then show ?case
    proof cases
      case a
      then show ?thesis by auto
    next
      case c
      from exists_update [OF finish(2) c, of Idle] finish(3)
      show ?thesis by (simp add: waits_simps)
    qed
  qed
qed

lemma pending_step:
  assumes "pool_step e client s s'"
  shows "set (pending s') \<subseteq> set (pending s)"
  using assms by (induction rule: pool_step.induct) auto

lemma length_workers_step:
  assumes "pool_step e client s s'"
  shows "length (workers s') = length (workers s)"
  using assms by (induction rule: pool_step.induct) auto

lemma closed_step:
  assumes "pool_step e client s s'" and "chan_closed s \<longrightarrow> pending s = []"
  shows "chan_closed s' \<longrightarrow> pending s' = []"
  using assms by (induction rule: pool_step.induct) auto

lemma exited_step:
  assumes "pool_step e client s s'" and "Exited \<in> set (workers s) \<longrightarrow> chan_closed s"
  shows "Exited \<in> set (workers s') \<longrightarrow> chan_closed s'"
  using assms
proof (induction rule: pool_step.induct)
  case (send s topic rest i)
  then show ?case using in_set_updateD [of Exited "workers s" i "Received topic"] by auto
next
  case (return s i topic)
  then show ?case using in_set_updateD [of Exited "workers s" i Idle] by auto
next
  case (start s i topic m partitions)
  then show ?case using in_set_updateD [of Exited "workers s" i "Running topic partitions"] by auto
next
  case (iteration s i topic partition' rest offset' ms)
  then show ?case using in_set_updateD [of Exited "workers s" i "Running topic rest"] by auto
next
  case (finish s i topic)
  then show ?case using in_set_updateD [of Exited "workers s" i Idle] by auto
qed auto

lemma shape_step:
  assumes "pool_step e client s s'" and "shape e topics s"
  shows "shape e topics s'"
  using pending_step [OF assms(1)] length_workers_step [OF assms(1)]
    closed_step [OF assms(1)] exited_step [OF assms(1)] assms(2)
  unfolding shape_def by auto

lemma samples_of_dispatched:
  "(\<Sum>topic\<leftarrow>topics. mset (topic_samples e client topic)) =
   (\<Sum>topic\<leftarrow>filter (accepted e) topics. mset (topic_samples e client topic))"
  by (induction topics) (simp_all add: topic_samples_rejected)

lemma outstanding_init:
  "outstanding e client (pool_init e client topics) =
     mset (broker_metrics client)
     + (\<Sum>topic\<leftarrow>filter (accepted e) topics. mset (topic_samples e client topic))"
proof -
  have "(\<Sum>w\<leftarrow>spawn 1 (worker_count e topics). owed e client w) = 0"
    by (rule sum_list_spawn) (simp add: owed_simps)
  then show ?thesis
    using samples_of_dispatched [of e client topics]
    by (simp add: outstanding_def pool_init_simps)
qed

lemma init_invariants:
  "wg_count (pool_init e client topics) = busy_count (workers (pool_init e client topics))"
  "has_map (pool_init e client topics)"
  "table_inv e client topics (pool_init e client topics)"
  "shape e topics (pool_init e client topics)"
proof -
  show "wg_count (pool_init e client topics) = busy_count (workers (pool_init e client topics))"
  proof -
    have "(\<Sum>w\<leftarrow>spawn 1 (worker_count e topics). if busy w then 1 else (0::int)) = 0"
      by (rule sum_list_spawn) (simp add: busy_def)
    then show ?thesis
      by (simp add: pool_init_simps busy_count_def)
  qed
  have idle: "w = Idle" if "w \<in> set (spawn 1 (worker_count e topics))" for w
    using that set_spawn [of 1 "worker_count e topics"] by auto
  show "has_map (pool_init e client topics)"
    unfolding has_map_def pool_init_simps
  proof (intro allI impI)
    fix i topic ps
    assume "i < length (spawn 1 (worker_count e topics))"
      and "spawn 1 (worker_count e topics) ! i = Running topic ps"
    then have "Running topic ps \<in> set (spawn 1 (worker_count e topics))"
      by (metis nth_mem)
    from idle [OF this] show "topic \<in> fst ` set []" by simp
  qed
  show "table_inv e client topics (pool_init e client topics)"
    by (simp add: table_inv_def pool_init_simps fetched_def)
  show "shape e topics (pool_init e client topics)"
    using idle by (auto simp: shape_def pool_init_simps length_spawn)
qed

lemma reachable_invariants:
  assumes "reachable e client topics s"
  shows "wg_count s = busy_count (workers s)
       \<and> outstanding e client s = outstanding e client (pool_init e client topics)
       \<and> has_map s \<and> table_inv e client topics s \<and> shape e topics s"
  using assms unfolding reachable_def
proof (induction rule: rtranclp_induct)
  case base
  show ?case by (simp add: init_invariants)
next
  case (step s s')
  then show ?case
    by (simp add: wg_step outstanding_step has_map_step table_inv_step shape_step)
qed

subsection \<open>The barrier, progress and termination\<close>

lemma barrier_all_sent:
  assumes "reachable e client topics s" and "barrier_passed s"
  shows "(\<forall>w \<in> set (workers s). w = Idle \<or> w = Exited)
       \<and> mset (sent s) =
           mset (broker_metrics client)
           + (\<Sum>topic\<leftarrow>filter (accepted e) topics. mset (topic_samples e client topic))"
proof -
  from reachable_invariants [OF assms(1)]
  have wg: "wg_count s = busy_count (workers s)"
    and out: "outstanding e client s = outstanding e client (pool_init e client topics)"
    by simp_all
  from assms(2) have "wg_count s = 0" "pending s = []"
    by (simp_all add: barrier_passed_def)
  with wg have idle: "w = Idle \<or> w = Exited" if "w \<in> set (workers s)" for w
    using busy_count_zero [of "workers s" w] that by (simp add: not_busy)
  have "owed e client w = 0" if "w \<in> set (workers s)" for w
    using idle [OF that] by (auto simp: owed_simps)
  then have "\<forall>w \<in> set (workers s). owed e client w = 0"
    by blast
  then have "(\<Sum>w\<leftarrow>workers s. owed e client w) = 0"
    by (rule sum_list_all_zero)
  with out \<open>pending s = []\<close> have "mset (sent s) = outstanding e client (pool_init e client topics)"
    by (simp add: outstanding_def)
  then have all_sent: "mset (sent s) =
           mset (broker_metrics client)
           + (\<Sum>topic\<leftarrow>filter (accepted e) topics. mset (topic_samples e client topic))"
    by (simp only: outstanding_init)
  from idle have "\<forall>w \<in> set (workers s). w = Idle \<or> w = Exited"
    by blast
  then show ?thesis
    using all_sent by (rule conjI)
qed

lemma busy_can_step:
  assumes "\<not> panicked s" and "i < length (workers s)" and "busy (workers s ! i)"
  shows "\<exists>s'. pool_step e client s s'"
proof (cases "workers s ! i")
  case Idle
  with assms(3) show ?thesis by (simp add: busy_def)
next
  case (Received topic)
  show ?thesis
  proof (cases "getTopicMetrics_start e client topic")
    case None
    from pool_step.return [OF assms(1,2) Received None] show ?thesis by blast
  next
    case (Some a)
    then obtain m ps where "getTopicMetrics_start e client topic = Some (m, ps)"
      by (cases a) auto
    from pool_step.start [OF assms(1,2) Received this] show ?thesis by blast
  qed
next
  case (Running topic ps)
  show ?thesis
  proof (cases ps)
    case Nil
    with Running have "workers s ! i = Running topic []" by simp
    from pool_step.finish [OF assms(1,2) this] show ?thesis by blast
  next
    case (Cons p rest)
    with Running have run: "workers s ! i = Running topic (p # rest)" by simp
    show ?thesis
    proof (cases "getTopicMetrics_partition e client topic (table s) p")
      case None
      from pool_step.panic [OF assms(1,2) run None] show ?thesis by blast
    next
      case (Some a)
      then obtain offset' ms where
        "getTopicMetrics_partition e client topic (table s) p = Some (offset', ms)"
        by (cases a) auto
      from pool_step.iteration [OF assms(1,2) run this] show ?thesis by blast
    qed
  qed
next
  case Exited
  with assms(3) show ?thesis by (simp add: busy_def)
qed

lemma pool_progress:
  assumes "reachable e client topics s" and "\<not> barrier_passed s" and "\<not> panicked s"
    and "1 \<le> topicWorkers e"
  shows "\<exists>s'. pool_step e client s s'"
proof -
  from reachable_invariants [OF assms(1)]
  have wg: "wg_count s = busy_count (workers s)" and sh: "shape e topics s"
    by simp_all
  show ?thesis
  proof (cases "pending s")
    case Nil
    show ?thesis
    proof (cases "chan_closed s")
      case True
      with Nil assms(2,3) have "wg_count s \<noteq> 0"
        by (simp add: barrier_passed_def)
      with wg obtain i where "i < length (workers s)" "busy (workers s ! i)"
        using busy_count_nonzero [of "workers s"] by auto
      with assms(3) show ?thesis by (rule busy_can_step)
    next
      case False
      from pool_step.close [OF assms(3) Nil False] show ?thesis by blast
    qed
  next
    case (Cons topic rest)
    show ?thesis
    proof (cases "accepted e topic")
      case False
      from pool_step.skip [OF assms(3) Cons False] show ?thesis by blast
    next
      case True
      from sh Cons have no_exit: "Exited \<notin> set (workers s)" and "topics \<noteq> []"
        and len: "length (workers s) = nat (worker_count e topics)"
        by (auto simp: shape_def)
      from worker_count_pos [OF \<open>topics \<noteq> []\<close> assms(4)] len
      have pos: "0 < length (workers s)"
        by simp
      show ?thesis
      proof (cases "\<exists>i < length (workers s). workers s ! i = Idle")
        case True
        then obtain i where "i < length (workers s)" "workers s ! i = Idle" by blast
        from pool_step.send [OF assms(3) Cons \<open>accepted e topic\<close> this] show ?thesis by blast
      next
        case False
        with pos have "workers s ! 0 \<noteq> Idle" by blast
        moreover from pos no_exit have "workers s ! 0 \<noteq> Exited"
          by (metis nth_mem)
        ultimately have "busy (workers s ! 0)"
          using not_busy [of "workers s ! 0"] by blast
        with assms(3) pos show ?thesis by (rule busy_can_step)
      qed
    qed
  qed
qed

text \<open>
  Every step lowers \<open>work_left\<close>: no run of the pool is infinite. With \<open>pool_progress\<close>,
  a pool of at least one worker runs until a goroutine panics or the barrier is passed.
\<close>

lemma worker_work_simps:
  "worker_work e client Idle = 1"
  "worker_work e client Exited = 0"
  "worker_work e client (Received topic) = 3 + topic_work e client topic"
  "worker_work e client (Running topic ps) = 2 + length ps"
  by (simp_all add: worker_work_def)

lemma worker_work_update:
  "i < length ws \<Longrightarrow>
   (\<Sum>w\<leftarrow>ws[i := w']. worker_work e client w) + worker_work e client (ws ! i) =
   (\<Sum>w\<leftarrow>ws. worker_work e client w) + worker_work e client w'"
  by (rule sum_list_map_update)

lemma pool_step_decreases:
  assumes "pool_step e client s s'"
  shows "work_left e client s' < work_left e client s"
  using assms
proof (induction rule: pool_step.induct)
  case (skip s topic rest)
  then show ?case by (simp add: work_left_def)
next
  case (send s topic rest i)
  from worker_work_update [OF send(4), of e client "Received topic"] send(1,2,5)
  show ?case by (simp add: work_left_def worker_work_simps)
next
  case (close s)
  then show ?case by (simp add: work_left_def)
next
  case (exit s i)
  from worker_work_update [OF exit(3), of e client Exited] exit(1,4)
  show ?case by (simp add: work_left_def worker_work_simps)
next
  case (return s i topic)
  from worker_work_update [OF return(2), of e client Idle] return(1,3)
  show ?case by (simp add: work_left_def worker_work_simps)
next
  case (start s i topic m partitions)
  from worker_work_update [OF start(2), of e client "Running topic partitions"] start(1,3,4)
  show ?case by (simp add: work_left_def worker_work_simps topic_work_def)
next
  case (iteration s i topic partition' rest offset' ms)
  from worker_work_update [OF iteration(2), of e client "Running topic rest"] iteration(1,3)
  show ?case by (simp add: work_left_def worker_work_simps)
next
  case (panic s i topic partition' rest)
  then show ?case by (simp add: work_left_def)
next
  case (finish s i topic)
  from worker_work_update [OF finish(2), of e client Idle] finish(1,3)
  show ?case by (simp add: work_left_def worker_work_simps)
qed

subsection \<open>The run of the scenario\<close>

lemma scenario_partition_0:
  "getTopicMetrics_partition scenario_exporter scenario_client ''t'' [(''t'', [])] 0 =
     Some ([(''t'', [(0, 10)])], take 7 (drop 1 scenario_topic_samples))"
  by (simp add: getTopicMetrics_partition_def scenario_exporter_def scenario_client_def
      scenario_broker_def scenario_topic_samples_def Let_def leader_is_preferred_def
      under_replicated_def len_def index_def zookeeper_lag_def offset_store_def OffsetNewest_def
      OffsetOldest_def)

lemma scenario_partition_1:
  "getTopicMetrics_partition scenario_exporter scenario_client ''t'' [(''t'', [(0, 10)])] 1 =
     Some (scenario_offset, drop 8 scenario_topic_samples)"
  by (simp add: getTopicMetrics_partition_def scenario_exporter_def scenario_client_def
      scenario_broker_def scenario_topic_samples_def Let_def leader_is_preferred_def
      under_replicated_def len_def index_def zookeeper_lag_def offset_store_def OffsetNewest_def
      OffsetOldest_def scenario_offset_def)

lemma scenario_start:
  "getTopicMetrics_start scenario_exporter scenario_client ''t'' =
     Some (MustNewConstMetric topicPartitions 2 [Str ''t''], [0, 1])"
  by (simp add: getTopicMetrics_start_def scenario_exporter_def scenario_client_def)

lemma scenario_getTopicMetrics:
  "getTopicMetrics scenario_exporter scenario_client ''t'' [] =
     Some (scenario_offset, scenario_topic_samples)"
  by (simp add: getTopicMetrics_def scenario_start offset_make_def scenario_partition_0
      scenario_partition_1 scenario_topic_samples_def)

lemma scenario_init:
  "pool_init scenario_exporter scenario_client [''t''] =
     \<lparr>pending = [''t''], chan_closed = False, wg_count = 0, workers = [Idle], table = [],
      sent = broker_metrics scenario_client, panicked = False\<rparr>"
proof -
  have "spawn 1 1 = [Idle]"
    by (simp add: spawn.simps [of 1 1] spawn.simps [of 2 1])
  then show ?thesis
    by (simp add: pool_init_def worker_count_def)
qed

lemma scenario_reachable:
  "reachable scenario_exporter scenario_client [''t''] scenario_final"
proof -
  let ?e = scenario_exporter and ?c = scenario_client
  let ?b = "broker_metrics scenario_client"
  let ?s0 = "\<lparr>pending = [''t''], chan_closed = False, wg_count = 0, workers = [Idle],
      table = [], sent = ?b, panicked = False\<rparr>"
  let ?s1 = "\<lparr>pending = [], chan_closed = False, wg_count = 1, workers = [Received ''t''],
      table = [], sent = ?b, panicked = False\<rparr>"
  let ?s2 = "\<lparr>pending = [], chan_closed = False, wg_count = 1,
      workers = [Running ''t'' [0, 1]], table = [(''t'', [])],
      sent = ?b @ take 1 scenario_topic_samples, panicked = False\<rparr>"
  let ?s3 = "\<lparr>pending = [], chan_closed = False, wg_count = 1,
      workers = [Running ''t'' [1]], table = [(''t'', [(0, 10)])],
      sent = ?b @ take 8 scenario_topic_samples, panicked = False\<rparr>"
  let ?s4 = "\<lparr>pending = [], chan_closed = False, wg_count = 1,
      workers = [Running ''t'' []], table = scenario_offset,
      sent = ?b @ scenario_topic_samples, panicked = False\<rparr>"
  let ?s5 = "\<lparr>pending = [], chan_closed = False, wg_count = 0,
      workers = [Idle], table = scenario_offset,
      sent = ?b @ scenario_topic_samples, panicked = False\<rparr>"
  have acc: "accepted ?e ''t''"
    by (simp add: accepted_def scenario_exporter_def)
  have 1: "pool_step ?e ?c ?s0 ?s1"
    using pool_step.send [where s = ?s0 and topic = "''t''" and rest = "[]" and i = 0
        and e = ?e and client = ?c] acc
    by simp
  have 2: "pool_step ?e ?c ?s1 ?s2"
    using pool_step.start [where s = ?s1 and topic = "''t''" and i = 0
        and e = ?e and client = ?c, OF _ _ _ scenario_start]
    by (simp add: offset_make_def scenario_topic_samples_def)
  have 3: "pool_step ?e ?c ?s2 ?s3"
    using pool_step.iteration [where s = ?s2 and topic = "''t''" and i = 0
        and e = ?e and client = ?c and partition' = 0 and rest = "[1]"]
      scenario_partition_0
    by (simp add: scenario_topic_samples_def)
  have 4: "pool_step ?e ?c ?s3 ?s4"
    using pool_step.iteration [where s = ?s3 and topic = "''t''" and i = 0
        and e = ?e and client = ?c and partition' = 1 and rest = "[]"]
      scenario_partition_1
    by (simp add: scenario_topic_samples_def)
  have 5: "pool_step ?e ?c ?s4 ?s5"
    using pool_step.finish [where s = ?s4 and topic = "''t''" and i = 0
        and e = ?e and client = ?c]
    by simp
  have 6: "pool_step ?e ?c ?s5 scenario_final"
    using pool_step.close [where s = ?s5 and e = ?e and client = ?c]
    by (simp add: scenario_final_def)
  from 1 2 3 4 5 6 have "(pool_step ?e ?c)\<^sup>*\<^sup>* ?s0 scenario_final"
    by (meson rtranclp.rtrancl_into_rtrancl rtranclp.rtrancl_refl)
  then show ?thesis
    by (simp add: reachable_def scenario_init)
qed

lemma scenario_barrier: "barrier_passed scenario_final"
  by (simp add: barrier_passed_def scenario_final_def)

lemma interleaving_single: "interleaving [xs] xs"
proof (induction xs)
  case Nil
  show ?case by (rule interleaving.nil) simp
next
  case (Cons x xs)
  from interleaving.take [of 0 "[x # xs]" x xs xs] Cons show ?case by simp
qed

lemma scenario_collect:
  "collect scenario_exporter scenario_client
     (sent scenario_final
      @ getConsumerGroupMetrics scenario_exporter scenario_offset scenario_broker)"
proof -
  have t: "Topics scenario_client = Inr [''t'']"
    by (simp add: scenario_client_def)
  from topic_phase.barrier [OF scenario_reachable scenario_barrier]
  have tp: "topic_phase scenario_exporter scenario_client [''t''] scenario_offset
              (sent scenario_final)"
    by (simp add: scenario_final_def)
  have "interleaving
          (map (getConsumerGroupMetrics scenario_exporter scenario_offset)
             (Brokers scenario_client))
          (getConsumerGroupMetrics scenario_exporter scenario_offset scenario_broker)"
    by (simp add: scenario_client_def interleaving_single)
  moreover have "\<forall>broker \<in> set (Brokers scenario_client).
                   \<not> getConsumerGroupMetrics_panics scenario_exporter scenario_offset broker"
    by (simp add: scenario_client_def getConsumerGroupMetrics_panics_def scenario_broker_def
        scenario_exporter_def build_request_def Let_def)
  ultimately show ?thesis
    using collect.phases [OF t tp] by blast
qed

subsection \<open>The claims about the topic phase\<close>

text \<open>
  Claim C4, as the code has it. For a configured worker count of at least 1: with more
  than one topic \<^verbatim>\<open>collect\<close> spawns min(len(topics)/2, topicWorkers) workers, with at
  least one topic at least one worker, with 10 topics and a count of 3 exactly 3. The
  number of workers never changes. When the barrier of line 545 is passed no worker holds a
  topic and the samples sent are the broker samples and all samples of every dispatched
  topic, nothing else. Until then, and unless a goroutine has panicked, some goroutine
  can take a step.
\<close>

theorem worker_pool_size_and_barrier:
  assumes "1 \<le> topicWorkers e"
  shows "(1 < length topics \<longrightarrow>
            int (length (workers (pool_init e client topics)))
              = min (int (length topics) div 2) (topicWorkers e))
       \<and> (1 \<le> length topics \<longrightarrow> 1 \<le> length (workers (pool_init e client topics)))
       \<and> (length topics = 10 \<and> topicWorkers e = 3 \<longrightarrow>
            length (workers (pool_init e client topics)) = 3)
       \<and> (\<forall>s. reachable e client topics s \<longrightarrow>
              length (workers s) = length (workers (pool_init e client topics))
              \<and> (barrier_passed s \<longrightarrow>
                   (\<forall>w \<in> set (workers s). w = Idle \<or> w = Exited)
                   \<and> mset (sent s) =
                       mset (broker_metrics client)
                       + (\<Sum>topic\<leftarrow>filter (accepted e) topics.
                            mset (topic_samples e client topic)))
              \<and> (\<not> barrier_passed s \<and> \<not> panicked s \<longrightarrow> (\<exists>s'. pool_step e client s s')))"
proof -
  have len: "length (workers (pool_init e client topics)) = nat (worker_count e topics)"
    by (simp add: pool_init_simps length_spawn)
  have many: "int (length (workers (pool_init e client topics)))
              = min (int (length topics) div 2) (topicWorkers e)" if "1 < length topics"
  proof -
    from that have "1 \<le> int (length topics) div 2" by simp
    with assms have "0 \<le> min (int (length topics) div 2) (topicWorkers e)" by simp
    with that show ?thesis
      by (simp add: len worker_count_def minx_min Let_def)
  qed
  have one: "1 \<le> length (workers (pool_init e client topics))" if "1 \<le> length topics"
  proof -
    from that have "topics \<noteq> []" by auto
    from worker_count_pos [OF this assms] show ?thesis
      by (simp add: len)
  qed
  have ten: "length (workers (pool_init e client topics)) = 3"
    if "length topics = 10 \<and> topicWorkers e = 3"
    using that by (simp add: len worker_count_def minx_def)
  have run: "length (workers s) = length (workers (pool_init e client topics))
              \<and> (barrier_passed s \<longrightarrow>
                   (\<forall>w \<in> set (workers s). w = Idle \<or> w = Exited)
                   \<and> mset (sent s) =
                       mset (broker_metrics client)
                       + (\<Sum>topic\<leftarrow>filter (accepted e) topics.
                            mset (topic_samples e client topic)))
              \<and> (\<not> barrier_passed s \<and> \<not> panicked s \<longrightarrow> (\<exists>s'. pool_step e client s s'))"
    if r: "reachable e client topics s" for s
  proof -
    from reachable_invariants [OF r] have "shape e topics s" by simp
    then have "length (workers s) = length (workers (pool_init e client topics))"
      by (simp add: shape_def len)
    moreover note barrier_all_sent [OF r] pool_progress [OF r _ _ assms]
    ultimately show ?thesis by blast
  qed
  from many one ten run show ?thesis by blast
qed

theorem worker_pool_size_and_barrier_witness:
  "1 \<le> topicWorkers scenario_exporter
   \<and> length (workers (pool_init scenario_exporter scenario_client (replicate 10 ''t''))) = 3
   \<and> reachable scenario_exporter scenario_client [''t''] scenario_final
   \<and> barrier_passed scenario_final
   \<and> length (workers scenario_final) = 1
   \<and> mset (sent scenario_final) =
       mset (broker_metrics scenario_client)
       + mset (topic_samples scenario_exporter scenario_client ''t'')"
proof -
  have h: "1 \<le> topicWorkers scenario_exporter"
    by (simp add: scenario_exporter_def)
  have acc: "accepted scenario_exporter ''t''"
    by (simp add: accepted_def scenario_exporter_def)
  from worker_pool_size_and_barrier [OF h, of "replicate 10 ''t''" scenario_client]
  have ten: "length (workers (pool_init scenario_exporter scenario_client (replicate 10 ''t''))) = 3"
    by (simp add: scenario_exporter_def)
  from worker_pool_size_and_barrier [OF h, of "[''t'']" scenario_client]
    scenario_reachable scenario_barrier acc
  have "mset (sent scenario_final) =
       mset (broker_metrics scenario_client)
       + mset (topic_samples scenario_exporter scenario_client ''t'')"
    by simp
  with h ten scenario_reachable scenario_barrier show ?thesis
    by (simp add: scenario_final_def)
qed

text \<open>
  With a configured worker count of 0 and two topics, \<^verbatim>\<open>minx(1, 0)\<close> workers are
  spawned: none.
\<close>

theorem no_worker_counterexample:
  "workers (pool_init (scenario_exporter\<lparr>topicWorkers := 0\<rparr>) scenario_client [''a'', ''b'']) = []"
  by (simp add: pool_init_def worker_count_def minx_def spawn.simps [of 1 0])







text \<open>
  \<^verbatim>\<open>collect\<close> does not return when a consumer-group goroutine panics.
\<close>

lemma panic_never_returns:
  assumes "Topics client = Inr topics" and "broker \<in> set (Brokers client)"
    and "\<forall>offset. getConsumerGroupMetrics_panics e offset broker"
  shows "\<not> collect e client out"
proof
  assume "collect e client out"
  then show False
    using assms by (cases rule: collect.cases) auto
qed








lemma topic_phase_table:
  assumes "topic_phase e client topics offset ms"
    and "fetched e client topics topic p v"
  shows "offset_lookup offset topic p = Some v"
  using assms(1)
proof (cases rule: topic_phase.cases)
  case (barrier s)
  from reachable_invariants [OF barrier(3)]
  have wg: "wg_count s = busy_count (workers s)" and inv: "table_inv e client topics s"
    by simp_all
  from barrier(4) have "wg_count s = 0" "pending s = []"
    by (simp_all add: barrier_passed_def)
  with wg have idle: "w = Idle \<or> w = Exited" if "w \<in> set (workers s)" for w
    using busy_count_zero [of "workers s" w] that by (simp add: not_busy)
  have "\<not> waits topic p w" if "w \<in> set (workers s)" for w
    using idle [OF that] by (auto simp: waits_simps)
  with inv assms(2) \<open>pending s = []\<close> have "offset_lookup (table s) topic p = Some v"
    unfolding table_inv_def by fastforce
  with barrier(1) show ?thesis by simp
qed

text \<open>
  Claim C9. Whenever \<^verbatim>\<open>collect\<close> returns, its consumer-group phase has read the offset
  table that the topic phase left at the barrier, and that table holds, for every
  partition of a dispatched topic whose newest offset was fetched without error, exactly
  the fetched value.
\<close>

theorem offset_table_read_after_write:
  assumes "collect e client out"
    and "Topics client = Inr topics"
    and "topic \<in> set topics" and "topicFilter e topic" and "\<not> topicExclude e topic"
    and "Partitions client topic = Inr ps" and "p \<in> set ps"
    and "GetOffset client topic p OffsetNewest = (v, None)"
  shows "\<exists>offset ms ms'.
           topic_phase e client topics offset ms
           \<and> interleaving (map (getConsumerGroupMetrics e offset) (Brokers client)) ms'
           \<and> out = ms @ ms'
           \<and> offset_lookup offset topic p = Some v"
  using assms(1)
proof (cases rule: collect.cases)
  case (no_topics err)
  with assms(2) show ?thesis by simp
next
  case (phases topics' offset ms ms')
  with assms(2) have tp: "topic_phase e client topics offset ms" by simp
  have "fetched e client topics topic p v"
    using assms(3-8) by (auto simp: fetched_def accepted_def)
  from topic_phase_table [OF tp this] tp phases show ?thesis by blast
qed

theorem offset_table_read_after_write_witness:
  "collect scenario_exporter scenario_client
     (sent scenario_final
      @ getConsumerGroupMetrics scenario_exporter scenario_offset scenario_broker)
   \<and> GetOffset scenario_client ''t'' 1 OffsetNewest = (20, None)
   \<and> (\<exists>offset ms ms'.
         topic_phase scenario_exporter scenario_client [''t''] offset ms
         \<and> interleaving (map (getConsumerGroupMetrics scenario_exporter offset)
                           (Brokers scenario_client)) ms'
         \<and> sent scenario_final
             @ getConsumerGroupMetrics scenario_exporter scenario_offset scenario_broker
             = ms @ ms'
         \<and> offset_lookup offset ''t'' 1 = Some 20)"
proof -
  have h2: "Topics scenario_client = Inr [''t'']"
    by (simp add: scenario_client_def)
  have h3: "''t'' \<in> set [''t'']" by simp
  have h4: "topicFilter scenario_exporter ''t''" and h5: "\<not> topicExclude scenario_exporter ''t''"
    by (simp_all add: scenario_exporter_def)
  have h6: "Partitions scenario_client ''t'' = Inr [0, 1]"
    by (simp add: scenario_client_def)
  have h7: "(1 :: int32) \<in> set [0, 1]" by simp
  have h8: "GetOffset scenario_client ''t'' 1 OffsetNewest = (20, None)"
    by (simp add: scenario_client_def)
  from offset_table_read_after_write [OF scenario_collect h2 h3 h4 h5 h6 h7 h8]
    scenario_collect h8
  show ?thesis by blast
qed

section \<open>Properties of the coalescing of \<^verbatim>\<open>Collect\<close>\<close>

text \<open>
  While a run is in flight (\<^verbatim>\<open>e.sgChans\<close> is not empty) no step starts another
  \<^verbatim>\<open>collectChans\<close>, and a caller that registers is put on the \<^verbatim>\<open>quit\<close> channel of that
  run. A caller that registers after the hand-off (\<^verbatim>\<open>e.sgChans\<close> is empty again) starts a
  new \<^verbatim>\<open>collectChans\<close> and waits on its channel, which is not closed.
\<close>

lemma one_run_while_in_flight:
  assumes "Collect_step e client s s'" and "\<not> allowConcurrent e" and "sgChans s \<noteq> []"
  shows "length (goroutines s') = length (goroutines s)"
  using assms by (induction rule: Collect_step.induct) simp_all

lemma waiter_attaches_to_run_in_flight:
  assumes "\<not> allowConcurrent e" and "\<not> sgMutex s" and "sgChans s \<noteq> []"
  shows "Collect_step e client s
           (s\<lparr>sgChans := sgChans s @ [ch], calls := calls s @ [(ch, sgWaitCh s)]\<rparr>)"
  using assms by (intro Collect_step.wait) simp_all

lemma numbered_step:
  assumes "Collect_step e client s s'" and "numbered s"
  shows "numbered s'"
  using assms
proof (induction rule: Collect_step.induct)
  case (first s ch out)
  then show ?case
    by (auto simp: numbered_def nth_append less_Suc_eq)
next
  case (unlock k s r)
  then show ?case
    by (auto simp: numbered_def nth_list_update)
qed (auto simp: numbered_def nth_list_update)

lemma numbered_reachable:
  assumes "(Collect_step e client)\<^sup>*\<^sup>* coalescer_init s"
  shows "numbered s"
  using assms
proof (induction rule: rtranclp_induct)
  case base
  show ?case by (simp add: numbered_def coalescer_init_def)
next
  case (step s s')
  then show ?case by (simp add: numbered_step)
qed

lemma new_run_after_hand_off:
  assumes "(Collect_step e client)\<^sup>*\<^sup>* coalescer_init s"
    and "\<not> allowConcurrent e" and "\<not> sgMutex s" and "sgChans s = []"
    and "collect e client out"
  shows "\<exists>s'. Collect_step e client s s'
              \<and> length (goroutines s') = length (goroutines s) + 1
              \<and> calls s' = calls s @ [(ch, Some (length (goroutines s)))]
              \<and> length (goroutines s) \<notin> closed s'"
proof -
  have "length (sgChans s @ [ch]) = 1"
    using assms(4) by simp
  from Collect_step.first [OF assms(2,3) this assms(5)]
  have "Collect_step e client s
           (s\<lparr>sgChans := sgChans s @ [ch],
              sgWaitCh := Some (length (goroutines s)),
              goroutines := goroutines s @
                [\<lparr>quit = length (goroutines s), todo = out, metric = None, container = [],
                  stage = Collecting\<rparr>],
              calls := calls s @ [(ch, Some (length (goroutines s)))]\<rparr>)" .
  moreover from numbered_reachable [OF assms(1)] have "length (goroutines s) \<notin> closed s"
    by (auto simp: numbered_def)
  ultimately show ?thesis
    by (intro exI conjI) (assumption, simp_all)
qed

lemma no_topics_collect:
  "collect scenario_exporter no_topics_client
     [MustNewConstMetric clusterBrokers 1 [],
      MustNewConstMetric clusterBrokerInfo 1 [FormatInt 1, Str ''broker-1:9092'']]"
proof -
  have "Topics no_topics_client = Inl (ErrOther ''kafka: client has run out of available brokers'')"
    by (simp add: no_topics_client_def)
  from collect.no_topics [OF this, of scenario_exporter] show ?thesis
    by (simp add: broker_metrics_def no_topics_client_def scenario_client_def scenario_broker_def)
qed

lemma race_run:
  "(Collect_step scenario_exporter no_topics_client)\<^sup>*\<^sup>* coalescer_init race_final"
proof -
  let ?e = scenario_exporter and ?c = no_topics_client
  let ?a = "MustNewConstMetric clusterBrokers 1 []"
  let ?b = "MustNewConstMetric clusterBrokerInfo 1 [FormatInt 1, Str ''broker-1:9092'']"
  let ?none = "\<lambda>ch::nat. [] :: Metric list"
  let ?r1 = "\<lparr>quit = 0, todo = [?a, ?b], metric = None, container = [], stage = Collecting\<rparr>"
  let ?r3 = "\<lparr>quit = 0, todo = [?b], metric = Some ?a, container = [], stage = Collecting\<rparr>"
  let ?r4 = "\<lparr>quit = 0, todo = [?b], metric = None, container = [?a], stage = Collecting\<rparr>"
  let ?r5 = "\<lparr>quit = 0, todo = [], metric = Some ?b, container = [?a], stage = Collecting\<rparr>"
  let ?r6 = "\<lparr>quit = 0, todo = [], metric = Some ?b, container = [?a], stage = Handing [1, 2]\<rparr>"
  let ?r7 = "\<lparr>quit = 0, todo = [], metric = Some ?b, container = [?a], stage = Handing [2]\<rparr>"
  let ?r8 = "\<lparr>quit = 0, todo = [], metric = None, container = [?a, ?b], stage = Handing [2]\<rparr>"
  let ?r9 = "\<lparr>quit = 0, todo = [], metric = None, container = [?a, ?b], stage = Handing []\<rparr>"
  let ?r10 = "\<lparr>quit = 0, todo = [], metric = None, container = [?a, ?b], stage = Finished\<rparr>"
  let ?s1 = "\<lparr>sgChans = [1], sgWaitCh = Some 0, sgMutex = False, goroutines = [?r1],
      closed = {}, got = ?none, calls = [(1, Some 0)], returned = []\<rparr>"
  let ?both = "[(1 :: nat, Some (0 :: nat)), (2, Some 0)]"
  let ?s2 = "\<lparr>sgChans = [1, 2], sgWaitCh = Some 0, sgMutex = False, goroutines = [?r1],
      closed = {}, got = ?none, calls = ?both, returned = []\<rparr>"
  let ?s3 = "\<lparr>sgChans = [1, 2], sgWaitCh = Some 0, sgMutex = False, goroutines = [?r3],
      closed = {}, got = ?none, calls = ?both, returned = []\<rparr>"
  let ?s4 = "\<lparr>sgChans = [1, 2], sgWaitCh = Some 0, sgMutex = False, goroutines = [?r4],
      closed = {}, got = ?none, calls = ?both, returned = []\<rparr>"
  let ?s5 = "\<lparr>sgChans = [1, 2], sgWaitCh = Some 0, sgMutex = False, goroutines = [?r5],
      closed = {}, got = ?none, calls = ?both, returned = []\<rparr>"
  let ?s6 = "\<lparr>sgChans = [1, 2], sgWaitCh = Some 0, sgMutex = True, goroutines = [?r6],
      closed = {}, got = ?none, calls = ?both, returned = []\<rparr>"
  let ?s7 = "\<lparr>sgChans = [1, 2], sgWaitCh = Some 0, sgMutex = True, goroutines = [?r7],
      closed = {}, got = ?none(1 := [?a]), calls = ?both, returned = []\<rparr>"
  let ?s8 = "\<lparr>sgChans = [1, 2], sgWaitCh = Some 0, sgMutex = True, goroutines = [?r8],
      closed = {}, got = ?none(1 := [?a]), calls = ?both, returned = []\<rparr>"
  let ?s9 = "\<lparr>sgChans = [1, 2], sgWaitCh = Some 0, sgMutex = True, goroutines = [?r9],
      closed = {}, got = ?none(1 := [?a], 2 := [?a, ?b]), calls = ?both, returned = []\<rparr>"
  let ?s10 = "\<lparr>sgChans = [], sgWaitCh = Some 0, sgMutex = False, goroutines = [?r10],
      closed = {0}, got = ?none(1 := [?a], 2 := [?a, ?b]), calls = ?both, returned = []\<rparr>"
  let ?s11 = "\<lparr>sgChans = [], sgWaitCh = Some 0, sgMutex = False, goroutines = [?r10],
      closed = {0}, got = ?none(1 := [?a], 2 := [?a, ?b]), calls = [(2, Some 0)],
      returned = [1]\<rparr>"
  have off: "\<not> allowConcurrent ?e"
    by (simp add: scenario_exporter_def)
  have 1: "Collect_step ?e ?c coalescer_init ?s1"
    using Collect_step.first [where s = coalescer_init and ch = 1 and e = ?e and client = ?c,
        OF off _ _ no_topics_collect]
    by (simp add: coalescer_init_def)
  have 2: "Collect_step ?e ?c ?s1 ?s2"
    using Collect_step.wait [where s = ?s1 and ch = 2 and e = ?e and client = ?c, OF off]
    by simp
  have 3: "Collect_step ?e ?c ?s2 ?s3"
    using Collect_step.send [where s = ?s2 and k = 0 and r = ?r1 and m = ?a and rest = "[?b]"
        and e = ?e and client = ?c]
    by simp
  have 4: "Collect_step ?e ?c ?s3 ?s4"
    using Collect_step.append [where s = ?s3 and k = 0 and r = ?r3 and m = ?a
        and e = ?e and client = ?c]
    by simp
  have 5: "Collect_step ?e ?c ?s4 ?s5"
    using Collect_step.send [where s = ?s4 and k = 0 and r = ?r4 and m = ?b and rest = "[]"
        and e = ?e and client = ?c]
    by simp
  have 6: "Collect_step ?e ?c ?s5 ?s6"
    using Collect_step.lock [where s = ?s5 and k = 0 and r = ?r5 and e = ?e and client = ?c]
    by simp
  have 7: "Collect_step ?e ?c ?s6 ?s7"
    using Collect_step.serve [where s = ?s6 and k = 0 and r = ?r6 and ch = 1 and rest = "[2]"
        and e = ?e and client = ?c]
    by simp
  have 8: "Collect_step ?e ?c ?s7 ?s8"
    using Collect_step.append [where s = ?s7 and k = 0 and r = ?r7 and m = ?b
        and e = ?e and client = ?c]
    by simp
  have 9: "Collect_step ?e ?c ?s8 ?s9"
    using Collect_step.serve [where s = ?s8 and k = 0 and r = ?r8 and ch = 2 and rest = "[]"
        and e = ?e and client = ?c]
    by simp
  have 10: "Collect_step ?e ?c ?s9 ?s10"
    using Collect_step.unlock [where s = ?s9 and k = 0 and r = ?r9 and e = ?e and client = ?c]
    by simp
  have 11: "Collect_step ?e ?c ?s10 ?s11"
    using Collect_step.return [where s = ?s10 and ch = 1 and w = 0 and e = ?e and client = ?c]
    by simp
  have 12: "Collect_step ?e ?c ?s11 race_final"
    using Collect_step.return [where s = ?s11 and ch = 2 and w = 0 and e = ?e and client = ?c]
    by (simp add: race_final_def)
  have "(Collect_step ?e ?c)\<^sup>*\<^sup>* coalescer_init ?s6"
    using 1 2 3 4 5 6 by (meson rtranclp.rtrancl_into_rtrancl rtranclp.rtrancl_refl)
  moreover have "(Collect_step ?e ?c)\<^sup>*\<^sup>* ?s6 race_final"
    using 7 8 9 10 11 12 by (meson rtranclp.rtrancl_into_rtrancl rtranclp.rtrancl_refl)
  ultimately show ?thesis
    by (rule rtranclp_trans)
qed

text \<open>
  Claim C1, evaluated. Two calls of \<^verbatim>\<open>Collect\<close> are coalesced into one run of
  \<^verbatim>\<open>collect\<close>, which sends two samples and returns. The goroutine of lines 341-345 has
  received the second sample and not yet appended it when \<^verbatim>\<open>collectChans\<close> serves the
  first caller from \<^verbatim>\<open>container\<close>; it appends it before the second caller is served.
  Nothing orders the \<^verbatim>\<open>append\<close> of line 343 before the reads of line 351. Both callers
  return, one with one sample and the other with two.
\<close>

theorem coalesced_callers_get_different_samples:
  "\<not> allowConcurrent scenario_exporter
   \<and> (Collect_step scenario_exporter no_topics_client)\<^sup>*\<^sup>* coalescer_init race_final
   \<and> length (goroutines race_final) = 1
   \<and> returned race_final = [1, 2]
   \<and> got race_final 1 = [MustNewConstMetric clusterBrokers 1 []]
   \<and> got race_final 2 =
       [MustNewConstMetric clusterBrokers 1 [],
        MustNewConstMetric clusterBrokerInfo 1 [FormatInt 1, Str ''broker-1:9092'']]"
  using race_run by (simp add: race_final_def scenario_exporter_def)

end
